theory Spec2Isabelle
  imports Main "HOL-Library.AList"
begin

section \<open>JavaScript strings and values\<close>

text \<open>
  Strings are lists of 8-bit characters. The helpers below are the string methods the
  server code calls: \<^verbatim>\<open>trim\<close>, \<^verbatim>\<open>toUpperCase\<close>, \<^verbatim>\<open>toLowerCase\<close>,
  \<^verbatim>\<open>split(",")\<close>, \<^verbatim>\<open>endsWith\<close>, and the truthiness test of a string (non-empty).
  \<^verbatim>\<open>trim\<close> strips the white space of JavaScript that an 8-bit character can be: the
  tab, the line feed, the vertical tab, the form feed, the carriage return, the space
  and the no-break space.
\<close>

definition is_space :: "char \<Rightarrow> bool" where
  "is_space c =
     (c \<in> set [CHR '' '', CHR 0x09, CHR 0x0A, CHR 0x0B, CHR 0x0C, CHR 0x0D, CHR 0xA0])"

definition trim :: "string \<Rightarrow> string" where
  "trim s = rev (dropWhile is_space (rev (dropWhile is_space s)))"

definition upper_char :: "char \<Rightarrow> char" where
  "upper_char c =
     (case map_of (zip ''abcdefghijklmnopqrstuvwxyz'' ''ABCDEFGHIJKLMNOPQRSTUVWXYZ'') c of
        Some u \<Rightarrow> u | None \<Rightarrow> c)"

definition lower_char :: "char \<Rightarrow> char" where
  "lower_char c =
     (case map_of (zip ''ABCDEFGHIJKLMNOPQRSTUVWXYZ'' ''abcdefghijklmnopqrstuvwxyz'') c of
        Some l \<Rightarrow> l | None \<Rightarrow> c)"

definition toUpperCase :: "string \<Rightarrow> string" where
  "toUpperCase s = map upper_char s"

definition toLowerCase :: "string \<Rightarrow> string" where
  "toLowerCase s = map lower_char s"

definition endsWith :: "string \<Rightarrow> string \<Rightarrow> bool" where
  "endsWith s suf = (length suf \<le> length s \<and> drop (length s - length suf) s = suf)"

definition startsWith :: "string \<Rightarrow> string \<Rightarrow> bool" where
  "startsWith s pre = (take (length pre) s = pre)"

text \<open>\<^verbatim>\<open>s.split(c)\<close> for a one-character separator: the empty string yields one empty field.\<close>

fun split_char :: "char \<Rightarrow> string \<Rightarrow> string list" where
  "split_char c [] = [[]]"
| "split_char c (x # xs) =
     (if x = c then [] # split_char c xs
      else (case split_char c xs of
              w # ws \<Rightarrow> (x # w) # ws
            | [] \<Rightarrow> [[x]]))"

text \<open>\<^verbatim>\<open>Array.from(new Set(xs))\<close>: duplicates dropped, first occurrences kept in order.\<close>

definition array_from_set :: "'a list \<Rightarrow> 'a list" where
  "array_from_set xs = rev (remdups (rev xs))"

text \<open>\<^verbatim>\<open>a || b\<close> on optional strings: the first operand that is present and non-empty.\<close>

definition truthy :: "string option \<Rightarrow> bool" where
  "truthy v = (case v of None \<Rightarrow> False | Some s \<Rightarrow> s \<noteq> [])"

definition or_else :: "string option \<Rightarrow> string option \<Rightarrow> string option" where
  "or_else a b = (if truthy a then a else b)"

definition or_str :: "string option \<Rightarrow> string \<Rightarrow> string" where
  "or_str a d = (case a of None \<Rightarrow> d | Some s \<Rightarrow> if s = [] then d else s)"

text \<open>
  A parsed JSON value. An object is the list of its own enumerable properties in the
  order \<^verbatim>\<open>Object.entries\<close> yields them, with distinct names; numbers are opaque to
  every function below.
\<close>

datatype json =
    JNull
  | JBool bool
  | JNum int
  | JStr string
  | JArr "json list"
  | JObj "(string \<times> json) list"

text \<open>\<^verbatim>\<open>v && typeof v === "object"\<close>: objects and arrays, not \<^verbatim>\<open>null\<close>.\<close>

fun is_object :: "json \<Rightarrow> bool" where
  "is_object (JObj ps) = True"
| "is_object (JArr xs) = True"
| "is_object _ = False"

text \<open>Property read \<^verbatim>\<open>v?.name\<close>; \<^verbatim>\<open>None\<close> is \<^verbatim>\<open>undefined\<close>.\<close>

fun get_prop :: "json \<Rightarrow> string \<Rightarrow> json option" where
  "get_prop (JObj ps) k = map_of ps k"
| "get_prop _ k = None"

section \<open>Tool-config store\<close>

text \<open>
  \<^verbatim>\<open>mcpConfigStore\<close> is a \<^verbatim>\<open>Map\<close>: an association list in insertion order, where
  \<^verbatim>\<open>set\<close> on a present key replaces the value in place (\<open>AList.update\<close>).
  \<^verbatim>\<open>mcpToolPolicy\<close> is the second module variable the loader writes.
\<close>

record mcp_state =
  mcpConfigStore :: "(string \<times> json) list"
  mcpToolPolicy :: "json option"

text \<open>\<^verbatim>\<open>cfg && typeof cfg === "object" && cfg.enabled !== false\<close>\<close>

definition cfg_enabled :: "json \<Rightarrow> bool" where
  "cfg_enabled cfg = (is_object cfg \<and> get_prop cfg ''enabled'' \<noteq> Some (JBool False))"

definition listEnabledMcpServers :: "mcp_state \<Rightarrow> string list" where
  "listEnabledMcpServers st =
     map fst (filter (\<lambda>(name, cfg). cfg_enabled cfg) (mcpConfigStore st))"

section \<open>Access policy\<close>

record auth_user =
  userId :: int
  email :: string
  role :: string
  allowedServers :: "string list"

text \<open>The request as the policy reads it: lower-cased header names and the verified user.\<close>

record request =
  headers :: "(string \<times> string) list"
  authUser :: "auth_user option"

definition header :: "request \<Rightarrow> string \<Rightarrow> string option" where
  "header req name = map_of (headers req) name"

definition deriveRole :: "request \<Rightarrow> string" where
  "deriveRole req =
     (if map_option role (authUser req) = Some ''ADMIN'' then ''ADMIN''
      else if map_option role (authUser req) = Some ''FACULTY'' then ''FACULTY''
      else if map_option role (authUser req) = Some ''STUDENT'' then ''STUDENT''
      else
        let headerRole =
              toUpperCase (or_str (or_else (header req ''x-role'') (header req ''x-user-role'')) [])
        in if headerRole = ''ADMIN'' then ''ADMIN''
           else if headerRole = ''FACULTY'' then ''FACULTY''
           else ''STUDENT'')"

definition parseAllowedServersHeader :: "request \<Rightarrow> string list option" where
  "parseAllowedServersHeader req =
     (let raw = or_str (header req ''x-allowed-servers'') []
      in if trim raw = [] then None
         else
           let parsed = filter (\<lambda>n. n \<noteq> []) (map trim (split_char CHR '','' raw))
           in if parsed \<noteq> [] then Some (array_from_set parsed) else None)"

definition roleDefaultMcpServers :: "string \<Rightarrow> string list" where
  "roleDefaultMcpServers r =
     (if r = ''ADMIN'' then [''student_server_2022'', ''student_server_2024'', ''faculty_server'']
      else if r = ''FACULTY'' then [''faculty_server'']
      else [''student_server_2022'', ''student_server_2024''])"

definition allowedMcpServersForRole :: "string \<Rightarrow> request \<Rightarrow> mcp_state \<Rightarrow> string list" where
  "allowedMcpServersForRole r req st =
     (let enabledServers = set (listEnabledMcpServers st);
          roleDefaults = filter (\<lambda>name. name \<in> enabledServers) (roleDefaultMcpServers r);
          tokenAllowed = map_option allowedServers (authUser req)
      in if (case tokenAllowed of None \<Rightarrow> False | Some t \<Rightarrow> t \<noteq> [])
         then filter (\<lambda>name. name \<in> set (the tokenAllowed)) roleDefaults
         else
           (case parseAllowedServersHeader req of
              None \<Rightarrow> roleDefaults
            | Some headerAllowed \<Rightarrow> filter (\<lambda>name. name \<in> set headerAllowed) roleDefaults))"

section \<open>Caller identity\<close>

text \<open>
  The decoded token as \<^verbatim>\<open>deriveAuthUser\<close> reads it. \<open>p_sub\<close> is
  \<^verbatim>\<open>Number(payload?.sub)\<close> when that is finite and \<open>None\<close> otherwise;
  \<open>p_allowedServers\<close> is \<open>None\<close> when the field is not an array. The library call
  \<^verbatim>\<open>jwt.verify(token, secret, {issuer})\<close> is a parameter: it yields the payload, or
  \<open>None\<close> where it throws (bad signature, wrong issuer, expired, malformed).
\<close>

record jwt_payload =
  p_sub :: "int option"
  p_email :: "string option"
  p_role :: "string option"
  p_allowedServers :: "string list option"

definition deriveAuthUser :: "(string \<Rightarrow> jwt_payload option) \<Rightarrow> request \<Rightarrow> auth_user option" where
  "deriveAuthUser jwt_verify req =
     (let auth = or_str (header req ''authorization'') []
      in if \<not> startsWith (toLowerCase auth) ''bearer '' then None
         else
           let token = trim (drop 7 auth)
           in if token = [] then None
              else
                (case jwt_verify token of
                   None \<Rightarrow> None
                 | Some payload \<Rightarrow>
                     let uid = p_sub payload;
                         em = toLowerCase (trim (or_str (p_email payload) []));
                         rl = toUpperCase (trim (or_str (p_role payload) []));
                         al = (case p_allowedServers payload of
                                 Some names \<Rightarrow> filter (\<lambda>n. n \<noteq> []) (map trim names)
                               | None \<Rightarrow> [])
                     in if uid = None \<or> em = [] then None
                        else Some \<lparr>userId = the uid, email = em, role = rl, allowedServers = al\<rparr>))"

text \<open>
  The middleware installed with \<^verbatim>\<open>app.use\<close>: it stores the derived user and always calls
  \<^verbatim>\<open>next()\<close>, so its result is the request every handler then sees.
\<close>

definition auth_middleware :: "(string \<Rightarrow> jwt_payload option) \<Rightarrow> request \<Rightarrow> request" where
  "auth_middleware jwt_verify req = req\<lparr>authUser := deriveAuthUser jwt_verify req\<rparr>"

section \<open>Secret redaction\<close>

definition secret_key :: "string \<Rightarrow> bool" where
  "secret_key k =
     (let key = toLowerCase k
      in key = ''key'' \<or> key = ''apikey'' \<or> key = ''api_key'' \<or> key = ''token''
         \<or> endsWith key ''_token'')"

text \<open>
  The loop builds \<^verbatim>\<open>out\<close> from \<^verbatim>\<open>{}\<close> by \<^verbatim>\<open>out[k] = redactSecrets(v)\<close> over the
  entries that are not skipped. The names are distinct, so each assignment appends a
  property; the one exception is the name \<^verbatim>\<open>__proto__\<close>, where the assignment sets the
  prototype of \<^verbatim>\<open>out\<close> and adds no own property.
\<close>

fun redactSecrets :: "json \<Rightarrow> json" where
  "redactSecrets (JArr xs) = JArr (map redactSecrets xs)"
| "redactSecrets (JObj ps) =
     JObj (map (\<lambda>(k, v). (k, redactSecrets v))
            (filter (\<lambda>(k, v). \<not> secret_key k \<and> k \<noteq> ''__proto__'') ps))"
| "redactSecrets v = v"

section \<open>Loading the store file\<close>

fun show_nat :: "nat \<Rightarrow> string" where
  "show_nat n =
     (if n < 10 then [''0123456789'' ! n]
      else show_nat (n div 10) @ [''0123456789'' ! (n mod 10)])"

text \<open>\<^verbatim>\<open>Object.entries(v)\<close> for an object or an array (whose names are its indices).\<close>

fun object_entries :: "json \<Rightarrow> (string \<times> json) list" where
  "object_entries (JObj ps) = ps"
| "object_entries (JArr xs) = zip (map show_nat [0..<length xs]) xs"
| "object_entries _ = []"

text \<open>
  \<^verbatim>\<open>loadMcpStore({replace})\<close>. The file system and \<^verbatim>\<open>JSON.parse\<close> are parameters:
  \<open>file\<close> is what \<^verbatim>\<open>fs.readFile\<close> gives (\<open>Inl\<close> the error it throws), \<open>parse\<close> is
  \<^verbatim>\<open>JSON.parse\<close> (\<open>Inl\<close> the \<^verbatim>\<open>SyntaxError\<close>). The result is the outcome of the
  returned promise (\<open>Inl\<close> would be a rejection) and the module state afterwards.
\<close>

definition loadMcpStore ::
  "bool \<Rightarrow> (string + string) \<Rightarrow> (string \<Rightarrow> string + json) \<Rightarrow> mcp_state
     \<Rightarrow> (string + bool) \<times> mcp_state" where
  "loadMcpStore replace file parse st =
     (case file of
        Inl e \<Rightarrow> (Inr False, st)
      | Inr raw \<Rightarrow>
          (case parse raw of
             Inl e \<Rightarrow> (Inr False, st)
           | Inr js \<Rightarrow>
               let servers = get_prop js ''servers'';
                   tools = get_prop js ''tools'';
                   store1 =
                     (case servers of
                        None \<Rightarrow> mcpConfigStore st
                      | Some sv \<Rightarrow>
                          if is_object sv then
                            fold (\<lambda>(name, config) m.
                                    if trim name \<noteq> [] \<and> is_object config
                                    then AList.update name config m else m)
                                 (object_entries sv)
                                 (if replace then [] else mcpConfigStore st)
                          else mcpConfigStore st);
                   policy1 =
                     (case tools of
                        Some (JObj ps) \<Rightarrow> Some (JObj ps)
                      | _ \<Rightarrow> if replace then None else mcpToolPolicy st)
               in (Inr True, \<lparr>mcpConfigStore = store1, mcpToolPolicy = policy1\<rparr>)))"

text \<open>The store file is malformed: it cannot be read, or its text does not parse.\<close>

definition malformed_store_file :: "(string + string) \<Rightarrow> (string \<Rightarrow> string + json) \<Rightarrow> bool" where
  "malformed_store_file file parse =
     (case file of Inl e \<Rightarrow> True | Inr raw \<Rightarrow> (case parse raw of Inl e \<Rightarrow> True | Inr js \<Rightarrow> False))"

section \<open>Process supervisor\<close>

text \<open>
  The port configuration. \<open>raw\<close> is \<^verbatim>\<open>process.env.OPENCODE_PORT\<close> (\<open>None\<close> when unset);
  \<open>number\<close> is the built-in \<^verbatim>\<open>Number\<close> on strings, a parameter. A number is
  \<^verbatim>\<open>NaN\<close>, an integer, or any other value (a fraction, an infinity) kept by its text.
\<close>

datatype js_number = NaN | Num int | NonInteger string

definition OPENCODE_PORT_IS_AUTO :: "string option \<Rightarrow> bool" where
  "OPENCODE_PORT_IS_AUTO raw = (raw = Some ''auto'')"

definition OPENCODE_PORT :: "(string \<Rightarrow> js_number) \<Rightarrow> string option \<Rightarrow> js_number option" where
  "OPENCODE_PORT number raw =
     (if OPENCODE_PORT_IS_AUTO raw \<or> \<not> truthy raw then None else Some (number (or_str raw [])))"

text \<open>
  \<^verbatim>\<open>!port\<close>: a port that is \<^verbatim>\<open>null\<close>, \<^verbatim>\<open>NaN\<close> or zero is no port; any other
  number is taken as it is.
\<close>

fun port_value :: "js_number option \<Rightarrow> js_number option" where
  "port_value None = None"
| "port_value (Some NaN) = None"
| "port_value (Some (Num n)) = (if n = 0 then None else Some (Num n))"
| "port_value (Some (NonInteger t)) = Some (NonInteger t)"

text \<open>
  What the operating system and the child process do, as parameters:
  \<open>getFreePort\<close> rejects (\<open>Inl\<close>) or resolves to a port or \<^verbatim>\<open>null\<close>;
  \<open>isPortAvailable\<close> probes a port and resolves to whether it is free, or rejects
  (\<open>Inl\<close>) when \<^verbatim>\<open>listen\<close> throws inside the promise, as it does for a number
  that is no TCP port (70000, -1, 8010.5); \<open>child\<close> is what the runtime spawned with
  \<^verbatim>\<open>--port=p\<close> does before the startup deadline.
\<close>

datatype child_outcome =
    Listening string
  | Exited int string
  | NoListeningLine
  | SpawnError string

record os_env =
  getFreePort :: "string + int option"
  isPortAvailable :: "js_number \<Rightarrow> string + bool"
  child :: "js_number \<Rightarrow> child_outcome"

datatype start_error =
    FreePortRejected string
  | ProbeRejected string
  | StartupTimeout
  | ProcessExited int string
  | SpawnFailed string

datatype log_line =
    ErrNoFreePort
  | ErrPortInUse js_number
  | ErrNoFallbackPort
  | WarnFallback js_number js_number
  | InfoStarted string

text \<open>
  The run of \<^verbatim>\<open>startOpencodeServer\<close>: what it returns (\<open>Inl\<close> when it throws,
  \<open>Inr None\<close> for \<^verbatim>\<open>null\<close>), the ports it spawned a child on, and its log lines.
\<close>

record start_result =
  returned :: "start_error + string option"
  spawned :: "js_number list"
  logged :: "log_line list"

definition spawn_child :: "os_env \<Rightarrow> js_number \<Rightarrow> log_line list \<Rightarrow> start_result" where
  "spawn_child env port logs =
     (case child env port of
        Listening url \<Rightarrow>
          \<lparr>returned = Inr (Some url), spawned = [port], logged = logs @ [InfoStarted url]\<rparr>
      | Exited code output \<Rightarrow>
          \<lparr>returned = Inl (ProcessExited code output), spawned = [port], logged = logs\<rparr>
      | NoListeningLine \<Rightarrow>
          \<lparr>returned = Inl StartupTimeout, spawned = [port], logged = logs\<rparr>
      | SpawnError e \<Rightarrow>
          \<lparr>returned = Inl (SpawnFailed e), spawned = [port], logged = logs\<rparr>)"

text \<open>
  \<^verbatim>\<open>startOpencodeServer\<close> reads the module constants \<^verbatim>\<open>OPENCODE_PORT\<close> and
  \<^verbatim>\<open>OPENCODE_PORT_RAW\<close> and the variable \<^verbatim>\<open>opencodeBaseUrl\<close>; they are its first three
  arguments here.
\<close>

definition startOpencodeServer ::
  "js_number option \<Rightarrow> string option \<Rightarrow> string option \<Rightarrow> os_env \<Rightarrow> start_result" where
  "startOpencodeServer PORT PORT_RAW baseUrl env =
     (case baseUrl of
        Some url \<Rightarrow> \<lparr>returned = Inr (Some url), spawned = [], logged = []\<rparr>
      | None \<Rightarrow>
          (case (case PORT of
                   Some n \<Rightarrow> Inr (Some n)
                 | None \<Rightarrow> map_sum id (map_option Num) (getFreePort env)) of
             Inl e \<Rightarrow> \<lparr>returned = Inl (FreePortRejected e), spawned = [], logged = []\<rparr>
           | Inr port0 \<Rightarrow>
               (case port_value port0 of
                  None \<Rightarrow> \<lparr>returned = Inr None, spawned = [], logged = [ErrNoFreePort]\<rparr>
                | Some port \<Rightarrow>
                    if PORT \<noteq> None then
                      (case isPortAvailable env port of
                         Inl e \<Rightarrow>
                           \<lparr>returned = Inl (ProbeRejected e), spawned = [], logged = []\<rparr>
                       | Inr available \<Rightarrow>
                           if \<not> available then
                             let explicitlySet = truthy PORT_RAW
                             in if explicitlySet then
                                  \<lparr>returned = Inr None, spawned = [],
                                     logged = [ErrPortInUse port]\<rparr>
                                else
                                  (case getFreePort env of
                                     Inl e \<Rightarrow>
                                       \<lparr>returned = Inl (FreePortRejected e), spawned = [],
                                          logged = []\<rparr>
                                   | Inr fb \<Rightarrow>
                                       (case port_value (map_option Num fb) of
                                          None \<Rightarrow>
                                            \<lparr>returned = Inr None, spawned = [],
                                               logged = [ErrNoFallbackPort]\<rparr>
                                        | Some fallback \<Rightarrow>
                                            spawn_child env fallback
                                              [WarnFallback port fallback]))
                           else spawn_child env port [])
                    else spawn_child env port [])))"

text \<open>
  \<^verbatim>\<open>getOpencode\<close>. Promise objects are numbered in creation order; \<open>opencodePromise\<close> is
  the cached one. Node runs one callback at a time and the body of an acquisition reads
  no variable another acquisition writes while it is in flight, so its run is one step,
  \<open>settle\<close>, taken when the operating system answers. A handle is represented by its
  server url; \<^verbatim>\<open>null\<close> is \<open>None\<close>. The first sync of the tool-config store inside
  the body is wrapped in its own \<^verbatim>\<open>try\<close> and does not change what the promise
  resolves to.
\<close>

datatype promise = Pending | Fulfilled "string option"

record supervisor =
  opencodePromise :: "nat option"
  promises :: "promise list"
  opencodeBaseUrl :: "string option"
  spawnedPorts :: "js_number list"

definition getOpencode :: "supervisor \<Rightarrow> nat \<times> supervisor" where
  "getOpencode s =
     (case opencodePromise s of
        Some i \<Rightarrow> (i, s)
      | None \<Rightarrow>
          let i = length (promises s)
          in (i, s\<lparr>opencodePromise := Some i, promises := promises s @ [Pending]\<rparr>))"

definition settle ::
  "js_number option \<Rightarrow> string option \<Rightarrow> os_env \<Rightarrow> supervisor \<Rightarrow> supervisor" where
  "settle PORT PORT_RAW env s =
     (case opencodePromise s of
        None \<Rightarrow> s
      | Some i \<Rightarrow>
          if i < length (promises s) \<and> promises s ! i = Pending then
            let r = startOpencodeServer PORT PORT_RAW (opencodeBaseUrl s) env;
                s1 = s\<lparr>spawnedPorts := spawnedPorts s @ spawned r\<rparr>
            in (case returned r of
                  Inr None \<Rightarrow> s1\<lparr>promises := (promises s)[i := Fulfilled None]\<rparr>
                | Inr (Some url) \<Rightarrow>
                    s1\<lparr>promises := (promises s)[i := Fulfilled (Some url)],
                       opencodeBaseUrl := Some url\<rparr>
                | Inl e \<Rightarrow>
                    s1\<lparr>promises := (promises s)[i := Fulfilled None],
                       opencodePromise := None\<rparr>)
          else s)"

datatype sup_event = Acquire | Settle os_env

text \<open>A run of the supervisor: the final state and the promise each caller was handed.\<close>

fun run_supervisor ::
  "js_number option \<Rightarrow> string option \<Rightarrow> sup_event list \<Rightarrow> supervisor \<times> nat list
     \<Rightarrow> supervisor \<times> nat list" where
  "run_supervisor PORT PORT_RAW [] acc = acc"
| "run_supervisor PORT PORT_RAW (Acquire # es) (s, handed) =
     (case getOpencode s of
        (i, s1) \<Rightarrow> run_supervisor PORT PORT_RAW es (s1, handed @ [i]))"
| "run_supervisor PORT PORT_RAW (Settle env # es) (s, handed) =
     run_supervisor PORT PORT_RAW es (settle PORT PORT_RAW env s, handed)"

definition supervisor0 :: supervisor where
  "supervisor0 =
     \<lparr>opencodePromise = None, promises = [], opencodeBaseUrl = None, spawnedPorts = []\<rparr>"

section \<open>Streaming chat turn\<close>

text \<open>The outward protocol: one NDJSON line per event written to the response.\<close>

datatype out_event =
    Meta "string option"
  | Delta string
  | Tool string "string option" string "string option"
  | AssistantError json
  | Error string
  | Done

text \<open>
  A message part of the backing process, with the fields the handler reads
  (\<open>part_status\<close> and \<open>part_title\<close> are \<^verbatim>\<open>part.state?.status\<close> and
  \<^verbatim>\<open>part.state?.title\<close>); \<open>None\<close> is an absent field.
\<close>

record part =
  part_sessionID :: "string option"
  part_type :: "string option"
  part_callID :: "string option"
  part_id :: "string option"
  part_tool :: "string option"
  part_messageID :: "string option"
  part_status :: "string option"
  part_title :: "string option"
  part_text :: "string option"

text \<open>An event of the subscription, by its \<^verbatim>\<open>type\<close>, with its \<^verbatim>\<open>properties\<close>.\<close>

datatype event =
    NotAnObject
  | MessagePartUpdated "part option" "string option"
  | SessionErrorEvent "string option" "json option"
  | SessionIdle "string option"
  | OtherEvent string

record session_message =
  m_role :: "string option"
  m_parts :: "part option list option"

fun json_truthy :: "json \<Rightarrow> bool" where
  "json_truthy JNull = False"
| "json_truthy (JBool b) = b"
| "json_truthy (JNum n) = (n \<noteq> 0)"
| "json_truthy (JStr s) = (s \<noteq> [])"
| "json_truthy (JArr xs) = True"
| "json_truthy (JObj ps) = True"

definition extractText :: "part option list option \<Rightarrow> string" where
  "extractText parts =
     (case parts of
        None \<Rightarrow> []
      | Some ps \<Rightarrow>
          concat (map (\<lambda>p. the (part_text (the p)))
                   (filter (\<lambda>p. p \<noteq> None \<and> part_type (the p) = Some ''text''
                                 \<and> part_text (the p) \<noteq> None) ps)))"

text \<open>\<^verbatim>\<open>part.callID || part.id || `${part.tool}-${part.messageID || ""}`\<close>\<close>

definition tool_call_id :: "part \<Rightarrow> string" where
  "tool_call_id p =
     or_str (or_else (part_callID p) (part_id p))
       ((case part_tool p of None \<Rightarrow> ''undefined'' | Some t \<Rightarrow> t) @ ''-''
          @ or_str (part_messageID p) [])"

definition tool_event :: "part \<Rightarrow> out_event" where
  "tool_event p =
     Tool (tool_call_id p) (part_tool p) (or_str (part_status p) ''unknown'') (part_title p)"

text \<open>The variables of one turn, and the lines written so far.\<close>

record loop_state =
  sawDelta :: bool
  sessionError :: "json option"
  seenToolCalls :: "string set"
  written :: "out_event list"

definition writeNdjson :: "out_event \<Rightarrow> loop_state \<Rightarrow> loop_state" where
  "writeNdjson e ls = ls\<lparr>written := written ls @ [e]\<rparr>"

text \<open>The body of the \<^verbatim>\<open>for await\<close> loop for one event, up to the idle test.\<close>

definition on_event :: "string option \<Rightarrow> event \<Rightarrow> loop_state \<Rightarrow> loop_state" where
  "on_event sessionId evt ls =
     (case evt of
        MessagePartUpdated part delta \<Rightarrow>
          (case part of
             None \<Rightarrow> ls
           | Some p \<Rightarrow>
               let ls1 =
                     (if part_sessionID p = sessionId \<and> part_type p = Some ''text'' \<and> truthy delta
                      then writeNdjson (Delta (the delta)) (ls\<lparr>sawDelta := True\<rparr>)
                      else ls)
               in if part_sessionID p = sessionId \<and> part_type p = Some ''tool''
                  then writeNdjson (tool_event p)
                         (ls1\<lparr>seenToolCalls := insert (tool_call_id p) (seenToolCalls ls1)\<rparr>)
                  else ls1)
      | SessionErrorEvent sid err \<Rightarrow>
          if \<not> truthy sid \<or> sid = sessionId
          then ls\<lparr>sessionError :=
                    Some (case err of
                            None \<Rightarrow> JObj [(''message'', JStr ''session.error'')]
                          | Some e \<Rightarrow> if json_truthy e then e
                                      else JObj [(''message'', JStr ''session.error'')])\<rparr>
          else ls
      | _ \<Rightarrow> ls)"

text \<open>
  The loop over the subscription: the state when it stops, and whether it stopped at the
  \<^verbatim>\<open>break\<close> on this session's idle event (otherwise the events ran out).
\<close>

fun consume :: "string option \<Rightarrow> event list \<Rightarrow> loop_state \<Rightarrow> loop_state \<times> bool" where
  "consume sessionId [] ls = (ls, False)"
| "consume sessionId (evt # evts) ls =
     (let ls1 = on_event sessionId evt ls
      in if evt = SessionIdle sessionId then (ls1, True) else consume sessionId evts ls1)"

definition last_message :: "session_message list option \<Rightarrow> session_message option" where
  "last_message messages =
     (case messages of
        None \<Rightarrow> None
      | Some ms \<Rightarrow> if ms = [] then None else Some (last ms))"

text \<open>The fallback: the text of the last message of the fetched list, if any.\<close>

definition fallback_delta ::
  "(string + session_message list option) \<Rightarrow> loop_state \<Rightarrow> loop_state" where
  "fallback_delta fetched ls =
     (case fetched of
        Inl e \<Rightarrow> ls
      | Inr messages \<Rightarrow>
          let replyText =
                extractText (case last_message messages of None \<Rightarrow> None | Some m \<Rightarrow> m_parts m)
          in if replyText \<noteq> [] then (writeNdjson (Delta replyText) ls)\<lparr>sawDelta := True\<rparr>
             else ls)"

definition surface_tool_part :: "part option \<Rightarrow> loop_state \<Rightarrow> loop_state" where
  "surface_tool_part part ls =
     (case part of
        None \<Rightarrow> ls
      | Some p \<Rightarrow>
          if part_type p = Some ''tool'' then
            let callId = tool_call_id p
            in if callId \<in> seenToolCalls ls then ls
               else writeNdjson (tool_event p)
                      (ls\<lparr>seenToolCalls := insert callId (seenToolCalls ls)\<rparr>)
          else ls)"

definition completeness_pass ::
  "(string + session_message list option) \<Rightarrow> loop_state \<Rightarrow> loop_state" where
  "completeness_pass fetched ls =
     (case fetched of
        Inl e \<Rightarrow> ls
      | Inr messages \<Rightarrow>
          let parts = (case last_message messages of
                         None \<Rightarrow> []
                       | Some m \<Rightarrow> (case m_parts m of None \<Rightarrow> [] | Some ps \<Rightarrow> ps))
          in fold surface_tool_part parts ls)"

text \<open>
  The request body and what the turn meets, as parameters. \<open>message\<close> is \<open>None\<close> when
  the field is absent or not a string. \<open>opencode\<close> is \<open>Inl\<close> when the acquired handle
  is \<^verbatim>\<open>null\<close> and destructuring it throws; \<open>session_create\<close> gives
  \<^verbatim>\<open>created?.id\<close>; \<open>subscribe\<close> gives the events the stream yields and how it ends
  after them. \<open>promptError\<close> is the rejection of the prompt call recorded by the time
  the \<^verbatim>\<open>try\<close> block is left. \<open>deadlineExpired\<close> says that the 120 s timer ran out
  before that block was left (the timer is cleared there). \<open>clientDisconnected\<close> says
  that the client closed the connection during the turn. \<open>messages1\<close> and
  \<open>messages2\<close> are the two fetches of the session's messages, unwrapped: \<open>Inl\<close> when
  the call throws, \<open>Inr None\<close> when the value is not an array.
\<close>

record chat_request =
  threadId :: "string option"
  message :: "string option"
  model_given :: bool

datatype stream_end = StreamEnds | StreamThrows string

record turn_env =
  opencode :: "string + unit"
  session_create :: "string + string option"
  default_model :: "string + unit"
  subscribe :: "string + (event list \<times> stream_end)"
  promptError :: "string option"
  deadlineExpired :: bool
  clientDisconnected :: bool
  messages1 :: "string + session_message list option"
  messages2 :: "string + session_message list option"

text \<open>
  \<^verbatim>\<open>abort.signal.aborted\<close>. Two callbacks call \<^verbatim>\<open>abort.abort()\<close>: the timer, and the
  listener that \<^verbatim>\<open>req.on("close", ...)\<close> registers. The listener is registered when
  the handler runs, after the JSON middleware has read the request body and after the
  handler has awaited the backing handle; Node emits the \<^verbatim>\<open>close\<close> event of a request
  once, when the request has completed, which is before then. So the listener is never
  called, a disconnect does not reach the signal, and only the timer fires it.
\<close>

definition signal_aborted :: "turn_env \<Rightarrow> bool" where
  "signal_aborted env = deadlineExpired env"

definition missing_message :: string where
  "missing_message = ''Missing '' @ [CHR 0x27] @ ''message'' @ [CHR 0x27]"

text \<open>The awaited steps before \<^verbatim>\<open>meta\<close> is written; any of them may throw.\<close>

definition resolve_session :: "chat_request \<Rightarrow> turn_env \<Rightarrow> string + string option" where
  "resolve_session body env =
     (case opencode env of
        Inl e \<Rightarrow> Inl e
      | Inr u \<Rightarrow>
          (case (if truthy (threadId body) then Inr (threadId body) else session_create env) of
             Inl e \<Rightarrow> Inl e
           | Inr sessionId \<Rightarrow>
               (case (if model_given body then Inr () else default_model env) of
                  Inl e \<Rightarrow> Inl e
                | Inr u \<Rightarrow> Inr sessionId)))"

text \<open>
  The \<^verbatim>\<open>try\<close> block after \<^verbatim>\<open>meta\<close>: subscribe, start the prompt, run the loop and
  await the prompt. It gives the loop's state, the exception that left the block if any
  (a failed subscription, or the stream throwing before this session's idle event), and
  the prompt's recorded rejection (none when the prompt was never started).
\<close>

definition live_stream ::
  "string option \<Rightarrow> turn_env \<Rightarrow> loop_state \<times> string option \<times> string option" where
  "live_stream sessionId env =
     (let ls0 = \<lparr>sawDelta = False, sessionError = None, seenToolCalls = {},
                 written = [Meta sessionId]\<rparr>
      in case subscribe env of
           Inl e \<Rightarrow> (ls0, Some e, None)
         | Inr (evts, ending) \<Rightarrow>
             (case consume sessionId evts ls0 of
                (ls, broke) \<Rightarrow>
                  (ls,
                   (if broke then None
                    else (case ending of StreamEnds \<Rightarrow> None | StreamThrows e \<Rightarrow> Some e)),
                   promptError env)))"

text \<open>The \<^verbatim>\<open>catch\<close> block: a generic \<^verbatim>\<open>error\<close> unless the signal had fired.\<close>

definition catch_stream_error :: "string option \<Rightarrow> bool \<Rightarrow> loop_state \<Rightarrow> loop_state" where
  "catch_stream_error thrown aborted ls =
     (if thrown \<noteq> None \<and> \<not> aborted then writeNdjson (Error (the thrown)) ls else ls)"

text \<open>\<^verbatim>\<open>if (promptError && !sessionError && !abort.signal.aborted)\<close>\<close>

definition surface_prompt_error :: "string option \<Rightarrow> bool \<Rightarrow> loop_state \<Rightarrow> loop_state" where
  "surface_prompt_error promptErr signalAborted ls =
     (if promptErr \<noteq> None \<and> sessionError ls = None \<and> \<not> signalAborted
      then writeNdjson (AssistantError (JObj [(''message'', JStr (the promptErr))])) ls
      else ls)"

text \<open>The last statement before \<^verbatim>\<open>done\<close>: the captured session error, or the timeout text.\<close>

definition terminal_event :: "bool \<Rightarrow> loop_state \<Rightarrow> loop_state" where
  "terminal_event aborted ls =
     (if sessionError ls \<noteq> None then writeNdjson (AssistantError (the (sessionError ls))) ls
      else if \<not> sawDelta ls \<and> aborted then writeNdjson (Error ''Timed out after 120s'') ls
      else ls)"

text \<open>
  From \<^verbatim>\<open>meta\<close> to \<^verbatim>\<open>done\<close>. \<open>signalAborted\<close> is \<^verbatim>\<open>abort.signal.aborted\<close> as read
  in the \<^verbatim>\<open>catch\<close> block and by the three tests after it: the timer is cleared when
  the \<^verbatim>\<open>try\<close> block is left, so the signal does not change afterwards.
\<close>

definition stream_turn :: "string option \<Rightarrow> turn_env \<Rightarrow> out_event list" where
  "stream_turn sessionId env =
     (case live_stream sessionId env of
        (ls1, thrown, promptErr) \<Rightarrow>
          let signalAborted = signal_aborted env;
              aborted = (thrown \<noteq> None \<and> signalAborted);
              ls2 = catch_stream_error thrown aborted ls1;
              ls3 = surface_prompt_error promptErr signalAborted ls2;
              ls4 = (if \<not> sawDelta ls3 \<and> \<not> signalAborted
                     then fallback_delta (messages1 env) ls3 else ls3);
              ls5 = (if \<not> signalAborted then completeness_pass (messages2 env) ls4 else ls4);
              ls6 = terminal_event aborted ls5
          in written (writeNdjson Done ls6))"

text \<open>
  The handler of \<^verbatim>\<open>POST /api/chat/stream\<close>: the events it writes. After \<^verbatim>\<open>meta\<close>
  every awaited call sits in a \<^verbatim>\<open>try\<close> block of its own, so the outer \<^verbatim>\<open>catch\<close>
  (an \<^verbatim>\<open>error\<close>, then \<^verbatim>\<open>done\<close>) is reached only from the steps before \<^verbatim>\<open>meta\<close>.
\<close>

definition chat_stream :: "chat_request \<Rightarrow> turn_env \<Rightarrow> out_event list" where
  "chat_stream body env =
     (if (case message body of None \<Rightarrow> True | Some m \<Rightarrow> trim m = [])
      then [Error missing_message]
      else (case resolve_session body env of
              Inl e \<Rightarrow> [Error e, Done]
            | Inr sessionId \<Rightarrow> stream_turn sessionId env))"

section \<open>Notions used to state the properties\<close>

text \<open>Kinds of outward events, and how many events of a kind a sequence holds.\<close>

fun is_done :: "out_event \<Rightarrow> bool" where
  "is_done Done = True"
| "is_done e = False"

fun is_error :: "out_event \<Rightarrow> bool" where
  "is_error (Error msg) = True"
| "is_error e = False"

fun is_assistant_error :: "out_event \<Rightarrow> bool" where
  "is_assistant_error (AssistantError j) = True"
| "is_assistant_error e = False"

fun is_delta :: "out_event \<Rightarrow> bool" where
  "is_delta (Delta t) = True"
| "is_delta e = False"

fun is_tool :: "out_event \<Rightarrow> bool" where
  "is_tool (Tool c t s ti) = True"
| "is_tool e = False"

fun tool_with_id :: "string \<Rightarrow> out_event \<Rightarrow> bool" where
  "tool_with_id c (Tool c' t s ti) = (c' = c)"
| "tool_with_id c e = False"

definition control :: "out_event \<Rightarrow> bool" where
  "control e = (is_done e \<or> is_error e \<or> is_assistant_error e)"

definition count_events :: "(out_event \<Rightarrow> bool) \<Rightarrow> out_event list \<Rightarrow> nat" where
  "count_events P out = length (filter P out)"

text \<open>
  The tool parts of this session that the live loop receives, in order: those of the
  events up to and including the session's first idle event.
\<close>

fun live_tool_updates :: "string option \<Rightarrow> event list \<Rightarrow> part list" where
  "live_tool_updates sessionId [] = []"
| "live_tool_updates sessionId (evt # evts) =
     (case evt of
        MessagePartUpdated (Some p) d \<Rightarrow>
          if part_sessionID p = sessionId \<and> part_type p = Some ''tool'' then [p] else []
      | _ \<Rightarrow> [])
     @ (if evt = SessionIdle sessionId then [] else live_tool_updates sessionId evts)"

text \<open>The role the role headers alone give: the header branch of \<open>deriveRole\<close>.\<close>

definition header_role :: "request \<Rightarrow> string" where
  "header_role req =
     (let h = toUpperCase (or_str (or_else (header req ''x-role'') (header req ''x-user-role'')) [])
      in if h = ''ADMIN'' then ''ADMIN'' else if h = ''FACULTY'' then ''FACULTY'' else ''STUDENT'')"

text \<open>The same request sent without its \<^verbatim>\<open>Authorization\<close> header.\<close>

definition without_token :: "request \<Rightarrow> request" where
  "without_token req = req\<lparr>headers := filter (\<lambda>(k, v). k \<noteq> ''authorization'') (headers req)\<rparr>"

text \<open>
  A token fails verification: the library rejects it, or its subject is not a finite
  number, or its email is missing or blank.
\<close>

definition verification_fails :: "(string \<Rightarrow> jwt_payload option) \<Rightarrow> string \<Rightarrow> bool" where
  "verification_fails jwt_verify token =
     (case jwt_verify token of
        None \<Rightarrow> True
      | Some payload \<Rightarrow> p_sub payload = None \<or> trim (or_str (p_email payload) []) = [])"

text \<open>Some object at some depth of the value has a property with a secret name.\<close>

fun has_secret :: "json \<Rightarrow> bool" where
  "has_secret (JArr xs) = (\<exists>x \<in> set xs. has_secret x)"
| "has_secret (JObj ps) = (\<exists>(k, v) \<in> set ps. secret_key k \<or> has_secret v)"
| "has_secret v = False"

text \<open>No object at any depth of the value has a property named \<^verbatim>\<open>__proto__\<close>.\<close>

fun proto_free :: "json \<Rightarrow> bool" where
  "proto_free (JArr xs) = (\<forall>x \<in> set xs. proto_free x)"
| "proto_free (JObj ps) = (\<forall>(k, v) \<in> set ps. k \<noteq> ''__proto__'' \<and> proto_free v)"
| "proto_free v = True"

text \<open>
  The payload without its secret-named properties: at every depth and inside arrays,
  each object keeps, in order, the properties whose name is not a secret one.
\<close>

fun without_secrets :: "json \<Rightarrow> json" where
  "without_secrets (JArr xs) = JArr (map without_secrets xs)"
| "without_secrets (JObj ps) =
     JObj (map (\<lambda>(k, v). (k, without_secrets v)) (filter (\<lambda>(k, v). \<not> secret_key k) ps))"
| "without_secrets v = v"

section \<open>Concrete inputs\<close>

text \<open>A store with the three servers of the role defaults enabled and one disabled entry.\<close>

definition store3 :: mcp_state where
  "store3 =
     \<lparr>mcpConfigStore =
        [(''student_server_2022'', JObj [(''type'', JStr ''remote'')]),
         (''student_server_2024'', JObj [(''type'', JStr ''remote'')]),
         (''faculty_server'', JObj [(''type'', JStr ''remote''), (''enabled'', JBool True)]),
         (''archive'', JObj [(''type'', JStr ''local''), (''enabled'', JBool False)])],
      mcpToolPolicy = None\<rparr>"

text \<open>A verified administrator whose token declares no servers: the list is empty, not absent.\<close>

definition admin_empty_list :: request where
  "admin_empty_list =
     \<lparr>headers = [(''authorization'', ''Bearer t'')],
      authUser = Some \<lparr>userId = 7, email = ''a@kec.edu'', role = ''ADMIN'', allowedServers = []\<rparr>\<rparr>"

text \<open>A verified student whose token allows one server, and a guest with a header list.\<close>

definition student_one_server :: request where
  "student_one_server =
     \<lparr>headers = [(''authorization'', ''Bearer t'')],
      authUser = Some \<lparr>userId = 9, email = ''s@kec.edu'', role = ''STUDENT'',
                      allowedServers = [''student_server_2024'']\<rparr>\<rparr>"

definition guest_with_header :: request where
  "guest_with_header =
     \<lparr>headers = [(''x-role'', ''guest''), (''x-allowed-servers'', ''student_server_2022, faculty_server'')],
      authUser = None\<rparr>"

text \<open>A request with a forged token and a role header, and a verifier that rejects it.\<close>

definition forged_request :: request where
  "forged_request =
     \<lparr>headers = [(''authorization'', ''Bearer forged.token.value''), (''x-role'', ''admin'')],
      authUser = None\<rparr>"

definition reject_all :: "string \<Rightarrow> jwt_payload option" where
  "reject_all token = None"

text \<open>A parser that accepts one text, and a store file cut off in the middle.\<close>

definition parse_only_empty_object :: "string \<Rightarrow> string + json" where
  "parse_only_empty_object s = (if s = ''{}'' then Inr (JObj []) else Inl ''SyntaxError'')"

definition truncated_file :: "string + string" where
  "truncated_file = Inr ''{ servers: ''"

text \<open>
  Port 8010 is bound by another process; every other port is free, the operating system
  hands out 40000, and the runtime announces its url.
\<close>

definition number8010 :: "string \<Rightarrow> js_number" where
  "number8010 s = (if s = ''8010'' then Num 8010 else NaN)"

definition port8010_busy :: os_env where
  "port8010_busy =
     \<lparr>getFreePort = Inr (Some 40000),
      isPortAvailable = (\<lambda>p. Inr (p \<noteq> Num 8010)),
      child = (\<lambda>p. Listening ''http://127.0.0.1'')\<rparr>"

definition all_ports_free :: os_env where
  "all_ports_free =
     \<lparr>getFreePort = Inr (Some 40000),
      isPortAvailable = (\<lambda>p. Inr True),
      child = (\<lambda>p. Listening ''http://127.0.0.1'')\<rparr>"

text \<open>Parts and messages of session \<^verbatim>\<open>s1\<close>.\<close>

definition search_part :: "string \<Rightarrow> part" where
  "search_part st =
     \<lparr>part_sessionID = Some ''s1'', part_type = Some ''tool'', part_callID = None,
      part_id = None, part_tool = Some ''search'', part_messageID = Some ''m1'',
      part_status = Some st, part_title = None, part_text = None\<rparr>"

definition text_part :: "string \<Rightarrow> part" where
  "text_part t =
     \<lparr>part_sessionID = Some ''s1'', part_type = Some ''text'', part_callID = None,
      part_id = None, part_tool = None, part_messageID = Some ''m1'',
      part_status = None, part_title = None, part_text = Some t\<rparr>"

definition ask :: chat_request where
  "ask = \<lparr>threadId = Some ''s1'', message = Some ''What is the fee?'', model_given = True\<rparr>"

definition no_message :: chat_request where
  "no_message = \<lparr>threadId = Some ''s1'', message = None, model_given = True\<rparr>"

text \<open>
  A turn in which the tool part is updated twice (pending, then completed) under the
  call id synthesized from its tool and message, the session goes idle, and the final
  assistant message holds the completed tool part.
\<close>

definition turn_two_updates :: turn_env where
  "turn_two_updates =
     \<lparr>opencode = Inr (), session_create = Inr (Some ''s1''), default_model = Inr (),
      subscribe = Inr ([MessagePartUpdated (Some (search_part ''pending'')) None,
                        MessagePartUpdated (Some (search_part ''completed'')) None,
                        SessionIdle (Some ''s1'')], StreamEnds),
      promptError = None, deadlineExpired = False, clientDisconnected = False,
      messages1 = Inr (Some [\<lparr>m_role = Some ''assistant'',
                              m_parts = Some [Some (search_part ''completed'')]\<rparr>]),
      messages2 = Inr (Some [\<lparr>m_role = Some ''assistant'',
                              m_parts = Some [Some (search_part ''completed'')]\<rparr>])\<rparr>"

text \<open>
  The client closes the connection right after \<^verbatim>\<open>meta\<close>, before any event; the
  backing process goes on, streams the answer and goes idle.
\<close>

definition turn_disconnected :: turn_env where
  "turn_disconnected =
     \<lparr>opencode = Inr (), session_create = Inr (Some ''s1''), default_model = Inr (),
      subscribe = Inr ([MessagePartUpdated (Some (text_part ''The fee is 100.''))
                          (Some ''The fee is 100.''),
                        SessionIdle (Some ''s1'')], StreamEnds),
      promptError = None, deadlineExpired = False, clientDisconnected = True,
      messages1 = Inr (Some [\<lparr>m_role = Some ''assistant'',
                              m_parts = Some [Some (text_part ''The fee is 100.'')]\<rparr>]),
      messages2 = Inr (Some [\<lparr>m_role = Some ''assistant'',
                              m_parts = Some [Some (text_part ''The fee is 100.'')]\<rparr>])\<rparr>"

text \<open>A request for a new session, and a turn in which creating the session fails.\<close>

definition ask_new :: chat_request where
  "ask_new = \<lparr>threadId = None, message = Some ''What is the fee?'', model_given = True\<rparr>"

definition turn_create_fails :: turn_env where
  "turn_create_fails =
     \<lparr>opencode = Inr (), session_create = Inl ''fetch failed'', default_model = Inr (),
      subscribe = Inr ([], StreamEnds),
      promptError = None, deadlineExpired = False, clientDisconnected = False,
      messages1 = Inr (Some []), messages2 = Inr (Some [])\<rparr>"

text \<open>
  Nothing streamed and the subscription ended; the session's list ends with the user's
  own message, after the assistant's answer of the turn before.
\<close>

definition turn_last_is_user :: turn_env where
  "turn_last_is_user =
     \<lparr>opencode = Inr (), session_create = Inr (Some ''s1''), default_model = Inr (),
      subscribe = Inr ([], StreamEnds),
      promptError = None, deadlineExpired = False, clientDisconnected = False,
      messages1 = Inr (Some [\<lparr>m_role = Some ''assistant'',
                              m_parts = Some [Some (text_part ''The fee is 100.'')]\<rparr>,
                             \<lparr>m_role = Some ''user'',
                              m_parts = Some [Some (text_part ''What is the fee?'')]\<rparr>]),
      messages2 = Inr (Some [\<lparr>m_role = Some ''assistant'',
                              m_parts = Some [Some (text_part ''The fee is 100.'')]\<rparr>,
                             \<lparr>m_role = Some ''user'',
                              m_parts = Some [Some (text_part ''What is the fee?'')]\<rparr>])\<rparr>"

text \<open>The runtime starts on any port and exits at once.\<close>

definition child_exits :: os_env where
  "child_exits =
     \<lparr>getFreePort = Inr (Some 40000),
      isPortAvailable = (\<lambda>p. Inr True),
      child = (\<lambda>p. Exited 1 ''config error'')\<rparr>"

text \<open>A provider catalog with secrets at two depths, and the same catalog without them.\<close>

definition catalog :: json where
  "catalog =
     JObj [(''providers'',
            JArr [JObj [(''id'', JStr ''opencode''),
                        (''apiKey'', JStr ''sk-1''),
                        (''options'', JObj [(''baseURL'', JStr ''https://api''),
                                            (''refresh_token'', JStr ''r-1'')])]]),
           (''default'', JObj [(''opencode'', JStr ''kimi-k2.5-free'')])]"

definition clean_catalog :: json where
  "clean_catalog =
     JObj [(''providers'',
            JArr [JObj [(''id'', JStr ''opencode''),
                        (''options'', JObj [(''baseURL'', JStr ''https://api'')])]]),
           (''default'', JObj [(''opencode'', JStr ''kimi-k2.5-free'')])]"

section \<open>Malformed store file (C8)\<close>

text \<open>
  Claim C8. Loading or reloading a store file that cannot be read or does not parse
  leaves the in-memory store as it was: the load resolves to \<^verbatim>\<open>false\<close> (it does not
  reject, so no exception reaches the caller), the configuration map and the tool policy
  are unchanged, and \<open>listEnabledMcpServers\<close> gives the same list before and after.
\<close>

theorem malformed_store_reload_unchanged:
  assumes "malformed_store_file file parse"
  shows "loadMcpStore replace file parse st = (Inr False, st)
         \<and> listEnabledMcpServers (snd (loadMcpStore replace file parse st))
             = listEnabledMcpServers st"
proof -
  have "loadMcpStore replace file parse st = (Inr False, st)"
    using assms
    by (auto simp: malformed_store_file_def loadMcpStore_def split: sum.splits)
  then show ?thesis by simp
qed

text \<open>
  C8 at a concrete input: a reload (with replace) of a truncated file, on a store that
  holds the three default servers.
\<close>

theorem malformed_store_reload_unchanged_witness:
  "malformed_store_file truncated_file parse_only_empty_object
   \<and> loadMcpStore True truncated_file parse_only_empty_object store3 = (Inr False, store3)
   \<and> listEnabledMcpServers (snd (loadMcpStore True truncated_file parse_only_empty_object store3))
       = [''student_server_2022'', ''student_server_2024'', ''faculty_server'']"
proof -
  have m: "malformed_store_file truncated_file parse_only_empty_object"
    by (simp add: malformed_store_file_def truncated_file_def parse_only_empty_object_def)
  have e: "listEnabledMcpServers store3
             = [''student_server_2022'', ''student_server_2024'', ''faculty_server'']"
    by (simp add: listEnabledMcpServers_def store3_def cfg_enabled_def)
  show ?thesis
    using malformed_store_reload_unchanged[OF m, of True store3] m e by simp
qed

section \<open>Effective allowed servers (C1)\<close>

lemma enabled_store3:
  "listEnabledMcpServers store3
     = [''student_server_2022'', ''student_server_2024'', ''faculty_server'']"
  by (simp add: listEnabledMcpServers_def store3_def cfg_enabled_def)

text \<open>
  Claim C1, as stated, asks for the result to lie within the caller's allow-list whenever
  that list is non-null. A verified user whose token declares no servers carries the
  empty list, which is non-null; the code treats an empty token list as absent, so the
  administrator below still receives all three servers, none of which is in the list.
\<close>

theorem allowed_servers_empty_token_counterexample:
  "map_option allowedServers (authUser admin_empty_list) = Some []
   \<and> allowedMcpServersForRole ''ADMIN'' admin_empty_list store3
       = [''student_server_2022'', ''student_server_2024'', ''faculty_server'']
   \<and> \<not> set (allowedMcpServersForRole ''ADMIN'' admin_empty_list store3)
           \<subseteq> set (allowedServers (the (authUser admin_empty_list)))"
  by (simp add: allowedMcpServersForRole_def Let_def enabled_store3 roleDefaultMcpServers_def
        parseAllowedServersHeader_def header_def or_str_def trim_def admin_empty_list_def)

text \<open>
  Claim C1, amended. For every role and every state of the store, the allowed servers
  computed for a request are among the role's defaults and among the enabled servers.
  They are among the token's servers whenever the verified user's list is non-empty;
  when there is no verified user or that list is empty, they are among the servers of
  the \<^verbatim>\<open>x-allowed-servers\<close> header whenever the header names any. So an allow-list only
  narrows the role defaults. Every role other than ADMIN and FACULTY has the STUDENT
  defaults, and a request whose token role and header role are both neither ADMIN nor
  FACULTY is given the role STUDENT.
\<close>

theorem allowed_servers_narrowing:
  "set (allowedMcpServersForRole r req st)
      \<subseteq> set (roleDefaultMcpServers r) \<inter> set (listEnabledMcpServers st)
   \<and> (\<forall>u. authUser req = Some u \<and> allowedServers u \<noteq> []
         \<longrightarrow> set (allowedMcpServersForRole r req st) \<subseteq> set (allowedServers u))
   \<and> (\<forall>h. (authUser req = None \<or> map_option allowedServers (authUser req) = Some [])
            \<and> parseAllowedServersHeader req = Some h
         \<longrightarrow> set (allowedMcpServersForRole r req st) \<subseteq> set h)
   \<and> (r \<noteq> ''ADMIN'' \<and> r \<noteq> ''FACULTY''
         \<longrightarrow> roleDefaultMcpServers r = roleDefaultMcpServers ''STUDENT'')
   \<and> (map_option role (authUser req) \<notin> {Some ''ADMIN'', Some ''FACULTY''}
       \<and> toUpperCase (or_str (or_else (header req ''x-role'') (header req ''x-user-role'')) [])
            \<notin> {''ADMIN'', ''FACULTY''}
         \<longrightarrow> deriveRole req = ''STUDENT'')"
proof -
  have sub: "set (allowedMcpServersForRole r req st)
      \<subseteq> set (roleDefaultMcpServers r) \<inter> set (listEnabledMcpServers st)"
    by (auto simp: allowedMcpServersForRole_def Let_def split: option.splits)
  have tok: "\<forall>u. authUser req = Some u \<and> allowedServers u \<noteq> []
         \<longrightarrow> set (allowedMcpServersForRole r req st) \<subseteq> set (allowedServers u)"
    by (auto simp: allowedMcpServersForRole_def Let_def)
  have hdr: "\<forall>h. (authUser req = None \<or> map_option allowedServers (authUser req) = Some [])
            \<and> parseAllowedServersHeader req = Some h
         \<longrightarrow> set (allowedMcpServersForRole r req st) \<subseteq> set h"
    by (auto simp: allowedMcpServersForRole_def Let_def)
  have dflt: "r \<noteq> ''ADMIN'' \<and> r \<noteq> ''FACULTY''
         \<longrightarrow> roleDefaultMcpServers r = roleDefaultMcpServers ''STUDENT''"
    by (simp add: roleDefaultMcpServers_def)
  have rl: "map_option role (authUser req) \<notin> {Some ''ADMIN'', Some ''FACULTY''}
       \<and> toUpperCase (or_str (or_else (header req ''x-role'') (header req ''x-user-role'')) [])
            \<notin> {''ADMIN'', ''FACULTY''}
         \<longrightarrow> deriveRole req = ''STUDENT''"
    by (simp add: deriveRole_def Let_def)
  from sub tok hdr dflt rl show ?thesis by blast
qed

text \<open>
  C1 amended, at concrete inputs: a student whose token allows one server, and a guest
  (an unrecognized role) who sends a header list.
\<close>

theorem allowed_servers_narrowing_witness:
  "allowedServers (the (authUser student_one_server)) \<noteq> []
   \<and> set (allowedMcpServersForRole ''STUDENT'' student_one_server store3)
        \<subseteq> set (allowedServers (the (authUser student_one_server)))
   \<and> allowedMcpServersForRole ''STUDENT'' student_one_server store3 = [''student_server_2024'']
   \<and> authUser guest_with_header = None
   \<and> parseAllowedServersHeader guest_with_header = Some [''student_server_2022'', ''faculty_server'']
   \<and> set (allowedMcpServersForRole ''GUEST'' guest_with_header store3)
        \<subseteq> set [''student_server_2022'', ''faculty_server'']
   \<and> roleDefaultMcpServers ''GUEST'' = roleDefaultMcpServers ''STUDENT''
   \<and> deriveRole guest_with_header = ''STUDENT''"
proof -
  have u: "authUser student_one_server
             = Some \<lparr>userId = 9, email = ''s@kec.edu'', role = ''STUDENT'',
                     allowedServers = [''student_server_2024'']\<rparr>"
    by (simp add: student_one_server_def)
  have t: "set (allowedMcpServersForRole ''STUDENT'' student_one_server store3)
             \<subseteq> set (allowedServers (the (authUser student_one_server)))"
    using allowed_servers_narrowing[of "''STUDENT''" student_one_server store3] u by simp
  have tv: "allowedMcpServersForRole ''STUDENT'' student_one_server store3
              = [''student_server_2024'']"
    by (simp add: allowedMcpServersForRole_def Let_def enabled_store3 roleDefaultMcpServers_def u)
  have g: "authUser guest_with_header = None"
    by (simp add: guest_with_header_def)
  have p: "parseAllowedServersHeader guest_with_header
             = Some [''student_server_2022'', ''faculty_server'']"
    by (simp add: parseAllowedServersHeader_def guest_with_header_def header_def or_str_def
          trim_def is_space_def array_from_set_def Let_def)
  have h: "set (allowedMcpServersForRole ''GUEST'' guest_with_header store3)
             \<subseteq> set [''student_server_2022'', ''faculty_server'']"
    using allowed_servers_narrowing[of "''GUEST''" guest_with_header store3] g p by blast
  have d: "roleDefaultMcpServers ''GUEST'' = roleDefaultMcpServers ''STUDENT''"
    using allowed_servers_narrowing[of "''GUEST''" guest_with_header store3] by simp
  have hr: "toUpperCase (or_str (or_else (header guest_with_header ''x-role'')
                                   (header guest_with_header ''x-user-role'')) []) = ''GUEST''"
    by (simp add: guest_with_header_def header_def or_else_def truthy_def or_str_def
          toUpperCase_def upper_char_def)
  have r: "deriveRole guest_with_header = ''STUDENT''"
    using allowed_servers_narrowing[of "''GUEST''" guest_with_header store3] g hr by simp
  show ?thesis using u t tv g p h d r by simp
qed

section \<open>The events of a streaming turn\<close>

subsection \<open>Terminal and error events\<close>

text \<open>
  The loop, the fallback and the completeness pass write only \<^verbatim>\<open>delta\<close> and \<^verbatim>\<open>tool\<close>
  events; they leave the captured session error as it is or set it (the loop only).
\<close>

lemma control_simps:
  "control Done" "control (Error msg)" "control (AssistantError j)"
  "\<not> control (Meta s)" "\<not> control (Delta t)" "\<not> control (tool_event p)"
  by (simp_all add: control_def tool_event_def)

lemma on_event_control:
  "filter control (written (on_event sid evt ls)) = filter control (written ls)"
  by (cases evt)
     (auto simp: on_event_def writeNdjson_def Let_def control_simps split: option.splits)

lemma consume_control:
  "filter control (written (fst (consume sid evts ls))) = filter control (written ls)"
proof (induction evts arbitrary: ls)
  case Nil
  then show ?case by simp
next
  case (Cons evt evts)
  show ?case
  proof (cases "evt = SessionIdle sid")
    case True
    then show ?thesis using on_event_control[of sid evt ls] by (simp add: Let_def)
  next
    case False
    then show ?thesis
      using Cons.IH[of "on_event sid evt ls"] on_event_control[of sid evt ls]
      by (simp add: Let_def)
  qed
qed

lemma live_stream_control:
  "filter control (written (fst (live_stream sid env))) = []"
proof (cases "subscribe env")
  case (Inl e)
  then show ?thesis by (simp add: live_stream_def control_simps)
next
  case (Inr pr)
  obtain evts ending where pr: "pr = (evts, ending)" by (cases pr)
  define ls0 where "ls0 = \<lparr>sawDelta = False, sessionError = None, seenToolCalls = {},
                 written = [Meta sid]\<rparr>"
  have "fst (live_stream sid env) = fst (consume sid evts ls0)"
    using Inr pr by (simp add: live_stream_def ls0_def split: prod.splits)
  then show ?thesis
    using consume_control[of sid evts ls0] by (simp add: ls0_def control_simps)
qed

lemma live_stream_thrown:
  "fst (snd (live_stream sid env)) \<noteq> None \<Longrightarrow> subscribe env \<noteq> Inr (evts, StreamEnds)"
  by (auto simp: live_stream_def split: sum.splits prod.splits if_splits)

lemma catch_control:
  "filter control (written (catch_stream_error thrown aborted ls))
     = filter control (written ls)
       @ (if thrown \<noteq> None \<and> \<not> aborted then [Error (the thrown)] else [])"
  "sessionError (catch_stream_error thrown aborted ls) = sessionError ls"
  by (simp_all add: catch_stream_error_def writeNdjson_def control_simps)

lemma prompt_control:
  "filter control (written (surface_prompt_error pe sa ls))
     = filter control (written ls)
       @ (if pe \<noteq> None \<and> sessionError ls = None \<and> \<not> sa
          then [AssistantError (JObj [(''message'', JStr (the pe))])] else [])"
  "sessionError (surface_prompt_error pe sa ls) = sessionError ls"
  by (simp_all add: surface_prompt_error_def writeNdjson_def control_simps)

lemma fallback_control:
  "filter control (written (fallback_delta f ls)) = filter control (written ls)"
  "sessionError (fallback_delta f ls) = sessionError ls"
  by (auto simp: fallback_delta_def writeNdjson_def Let_def control_simps split: sum.splits)

lemma surface_control:
  "filter control (written (surface_tool_part a ls)) = filter control (written ls)"
  "sessionError (surface_tool_part a ls) = sessionError ls"
  by (auto simp: surface_tool_part_def writeNdjson_def Let_def control_simps
           split: option.splits)

lemma fold_surface_control:
  "filter control (written (fold surface_tool_part parts ls)) = filter control (written ls)
   \<and> sessionError (fold surface_tool_part parts ls) = sessionError ls"
  by (induction parts arbitrary: ls) (simp_all add: surface_control)

lemma completeness_control:
  "filter control (written (completeness_pass f ls)) = filter control (written ls)"
  "sessionError (completeness_pass f ls) = sessionError ls"
  by (cases f; simp add: completeness_pass_def fold_surface_control Let_def)+

lemma terminal_control:
  "filter control (written (terminal_event aborted ls))
     = filter control (written ls)
       @ (if sessionError ls \<noteq> None then [AssistantError (the (sessionError ls))]
          else if \<not> sawDelta ls \<and> aborted then [Error ''Timed out after 120s''] else [])"
  by (simp add: terminal_event_def writeNdjson_def control_simps)

text \<open>
  The terminal and error events of a turn, in order: the \<^verbatim>\<open>error\<close> of the
  \<^verbatim>\<open>catch\<close> block when the block was left by an exception with the signal not
  fired, the \<^verbatim>\<open>assistant_error\<close> for a rejected prompt when no session error was
  captured and the signal has not fired, the event of the last statement, and
  \<^verbatim>\<open>done\<close>.
\<close>

lemma stream_turn_control:
  assumes live: "live_stream sid env = (ls1, thrown, promptErr)"
  shows "\<exists>T.
     filter control (stream_turn sid env)
       = (if thrown \<noteq> None \<and> \<not> signal_aborted env then [Error (the thrown)] else [])
         @ (if promptErr \<noteq> None \<and> sessionError ls1 = None \<and> \<not> signal_aborted env
            then [AssistantError (JObj [(''message'', JStr (the promptErr))])] else [])
         @ T @ [Done]
     \<and> (if sessionError ls1 \<noteq> None then T = [AssistantError (the (sessionError ls1))]
         else T = [] \<or> (T = [Error ''Timed out after 120s'']
                         \<and> thrown \<noteq> None \<and> signal_aborted env))"
proof -
  define sa where "sa = signal_aborted env"
  define aborted where "aborted = (thrown \<noteq> None \<and> sa)"
  define ls3 where
    "ls3 = surface_prompt_error promptErr sa (catch_stream_error thrown aborted ls1)"
  define ls4 where
    "ls4 = (if \<not> sawDelta ls3 \<and> \<not> sa then fallback_delta (messages1 env) ls3 else ls3)"
  define ls5 where
    "ls5 = (if \<not> sa then completeness_pass (messages2 env) ls4 else ls4)"
  have out: "stream_turn sid env = written (writeNdjson Done (terminal_event aborted ls5))"
    by (simp only: stream_turn_def live prod.case Let_def ls5_def ls4_def ls3_def
          aborted_def sa_def)
  have c1: "filter control (written ls1) = []"
    using live_stream_control[of sid env] live by simp
  define E where "E = (if thrown \<noteq> None \<and> \<not> sa then [Error (the thrown)] else [])"
  define A where
    "A = (if promptErr \<noteq> None \<and> sessionError ls1 = None \<and> \<not> sa
          then [AssistantError (JObj [(''message'', JStr (the promptErr))])] else [])"
  define T where
    "T = (if sessionError ls1 \<noteq> None then [AssistantError (the (sessionError ls1))]
          else if \<not> sawDelta ls5 \<and> aborted then [Error ''Timed out after 120s''] else [])"
  have c3: "filter control (written ls3) = E @ A" "sessionError ls3 = sessionError ls1"
    using c1 by (auto simp: ls3_def catch_control prompt_control E_def A_def aborted_def)
  have c4: "filter control (written ls4) = E @ A" "sessionError ls4 = sessionError ls1"
    using c3 by (simp_all add: ls4_def fallback_control)
  have c5: "filter control (written ls5) = E @ A" "sessionError ls5 = sessionError ls1"
    using c4 by (simp_all add: ls5_def completeness_control)
  have shape: "filter control (stream_turn sid env) = E @ A @ T @ [Done]"
    unfolding out using c5 by (simp add: writeNdjson_def terminal_control T_def control_simps)
  have pT: "if sessionError ls1 \<noteq> None then T = [AssistantError (the (sessionError ls1))]
            else T = [] \<or> (T = [Error ''Timed out after 120s''] \<and> thrown \<noteq> None \<and> sa)"
    by (auto simp: T_def aborted_def)
  show ?thesis
    using shape pT unfolding E_def A_def sa_def by blast
qed

lemma count_control:
  "count_events is_done out = count_events is_done (filter control out)"
  "count_events is_error out = count_events is_error (filter control out)"
  "count_events is_assistant_error out = count_events is_assistant_error (filter control out)"
  "count_events (\<lambda>e. is_error e \<or> is_assistant_error e) out
     = count_events (\<lambda>e. is_error e \<or> is_assistant_error e) (filter control out)"
  by (auto simp: count_events_def control_def intro!: arg_cong[where f=length] filter_cong)

lemma stream_turn_last: "last (stream_turn sid env) = Done \<and> stream_turn sid env \<noteq> []"
  by (cases "live_stream sid env") (auto simp: stream_turn_def Let_def writeNdjson_def)

subsection \<open>Exactly one done (C2)\<close>

text \<open>
  What holds of every request whose message is a non-blank string, failures before
  \<^verbatim>\<open>meta\<close> included: the outward sequence holds exactly one \<^verbatim>\<open>done\<close>, and it is
  the last event; at most one \<^verbatim>\<open>error\<close> and at most one \<^verbatim>\<open>assistant_error\<close> come
  before it. Both come exactly when the \<^verbatim>\<open>try\<close> block was left by an exception of
  a started stream with the signal not fired, and a prompt rejection or a session error
  had been recorded.
\<close>

lemma valid_turn_exactly_one_done:
  assumes "message body = Some m" and "trim m \<noteq> []"
  shows "count_events is_done (chat_stream body env) = 1
       \<and> last (chat_stream body env) = Done
       \<and> count_events is_error (chat_stream body env) \<le> 1
       \<and> count_events is_assistant_error (chat_stream body env) \<le> 1
       \<and> (\<forall>e. resolve_session body env = Inl e \<longrightarrow> chat_stream body env = [Error e, Done])
       \<and> (\<forall>sid ls1 thrown promptErr.
             resolve_session body env = Inr sid
             \<and> live_stream sid env = (ls1, thrown, promptErr)
             \<longrightarrow> (1 < count_events (\<lambda>e. is_error e \<or> is_assistant_error e)
                         (chat_stream body env))
                  = (thrown \<noteq> None \<and> \<not> signal_aborted env
                     \<and> (promptErr \<noteq> None \<or> sessionError ls1 \<noteq> None)))"
proof (cases "resolve_session body env")
  case (Inl e)
  then have "chat_stream body env = [Error e, Done]"
    using assms by (simp add: chat_stream_def)
  then show ?thesis using Inl by (simp add: count_events_def)
next
  case (Inr sid)
  then have cs: "chat_stream body env = stream_turn sid env"
    using assms by (simp add: chat_stream_def)
  obtain ls1 thrown promptErr where live: "live_stream sid env = (ls1, thrown, promptErr)"
    by (cases "live_stream sid env") auto
  obtain T where sh: "filter control (stream_turn sid env)
       = (if thrown \<noteq> None \<and> \<not> signal_aborted env then [Error (the thrown)] else [])
         @ (if promptErr \<noteq> None \<and> sessionError ls1 = None \<and> \<not> signal_aborted env
            then [AssistantError (JObj [(''message'', JStr (the promptErr))])] else [])
         @ T @ [Done]"
     and pT: "if sessionError ls1 \<noteq> None then T = [AssistantError (the (sessionError ls1))]
              else T = [] \<or> (T = [Error ''Timed out after 120s'']
                              \<and> thrown \<noteq> None \<and> signal_aborted env)"
    using stream_turn_control[OF live] by blast
  have d: "count_events is_done (stream_turn sid env) = 1"
    unfolding count_control(1)[of "stream_turn sid env"] sh
    using pT by (auto simp: count_events_def split: if_splits)
  have e: "count_events is_error (stream_turn sid env) \<le> 1"
    unfolding count_control(2)[of "stream_turn sid env"] sh
    using pT by (auto simp: count_events_def split: if_splits)
  have a: "count_events is_assistant_error (stream_turn sid env) \<le> 1"
    unfolding count_control(3)[of "stream_turn sid env"] sh
    using pT by (auto simp: count_events_def split: if_splits)
  have b: "(1 < count_events (\<lambda>e. is_error e \<or> is_assistant_error e) (stream_turn sid env))
             = (thrown \<noteq> None \<and> \<not> signal_aborted env
                \<and> (promptErr \<noteq> None \<or> sessionError ls1 \<noteq> None))"
    unfolding count_control(4)[of "stream_turn sid env"] sh
    using pT by (auto simp: count_events_def split: if_splits)
  show ?thesis
    using d e a b stream_turn_last[of sid env] cs Inr live by simp
qed

text \<open>
  Claim C2 says that every request to the endpoint, fatal paths included, ends its
  outward sequence with exactly one \<^verbatim>\<open>done\<close>. The branch for a missing message
  writes its \<^verbatim>\<open>error\<close> and returns without the \<^verbatim>\<open>done\<close>; the other fatal path,
  the outer \<^verbatim>\<open>catch\<close> (here: creating the session fails), writes \<^verbatim>\<open>error\<close> and then
  \<^verbatim>\<open>done\<close>.
\<close>

theorem missing_message_ends_without_done:
  "message no_message = None
   \<and> chat_stream no_message turn_two_updates = [Error missing_message]
   \<and> count_events is_done (chat_stream no_message turn_two_updates) = 0
   \<and> chat_stream ask_new turn_create_fails = [Error ''fetch failed'', Done]"
  by code_simp

subsection \<open>Client disconnect before any delta (C4)\<close>

text \<open>
  No definition of the handler reads whether the client has disconnected: the turn and
  the abort signal are the same with and without the disconnect.
\<close>

lemma disconnect_live_stream:
  "live_stream sid (env\<lparr>clientDisconnected := b\<rparr>) = live_stream sid env"
  by (simp add: live_stream_def Let_def split: sum.splits prod.splits)

lemma disconnect_stream_turn:
  "stream_turn sid (env\<lparr>clientDisconnected := b\<rparr>) = stream_turn sid env"
proof -
  obtain ls1 thrown promptErr where live: "live_stream sid env = (ls1, thrown, promptErr)"
    by (cases "live_stream sid env") auto
  have live': "live_stream sid (env\<lparr>clientDisconnected := b\<rparr>) = (ls1, thrown, promptErr)"
    using live by (simp only: disconnect_live_stream)
  have sa: "signal_aborted (env\<lparr>clientDisconnected := b\<rparr>) = signal_aborted env"
    by (simp add: signal_aborted_def)
  have m1: "messages1 (env\<lparr>clientDisconnected := b\<rparr>) = messages1 env"
    by simp
  have m2: "messages2 (env\<lparr>clientDisconnected := b\<rparr>) = messages2 env"
    by simp
  show ?thesis
    by (simp only: stream_turn_def live live' prod.case sa m1 m2)
qed

lemma disconnect_resolve_session:
  "resolve_session body (env\<lparr>clientDisconnected := b\<rparr>) = resolve_session body env"
  by (simp add: resolve_session_def split: sum.splits)

lemma disconnect_changes_nothing:
  "chat_stream body (env\<lparr>clientDisconnected := b\<rparr>) = chat_stream body env
   \<and> signal_aborted (env\<lparr>clientDisconnected := b\<rparr>) = signal_aborted env"
proof -
  have sa: "signal_aborted (env\<lparr>clientDisconnected := b\<rparr>) = signal_aborted env"
    by (simp add: signal_aborted_def)
  have cs: "chat_stream body (env\<lparr>clientDisconnected := b\<rparr>) = chat_stream body env"
    by (simp only: chat_stream_def disconnect_stream_turn disconnect_resolve_session)
  show ?thesis using sa cs by simp
qed

text \<open>
  Claim C4 says that a client disconnect before any \<^verbatim>\<open>delta\<close> cancels the backing
  subscription and ends the stream with \<^verbatim>\<open>meta\<close> and \<^verbatim>\<open>done\<close> only. The handler
  registers a listener for that, but too late for it to be called: when the client
  disconnects right after \<^verbatim>\<open>meta\<close>, the abort signal does not fire, the subscription
  stays open, and the answer the backing process streams afterwards is written as a
  \<^verbatim>\<open>delta\<close> before \<^verbatim>\<open>done\<close>, as in the turn without the disconnect.
\<close>

theorem disconnect_does_not_abort:
  "clientDisconnected turn_disconnected
   \<and> \<not> signal_aborted turn_disconnected
   \<and> chat_stream ask turn_disconnected
       = [Meta (Some ''s1''), Delta ''The fee is 100.'', Done]
   \<and> chat_stream ask (turn_disconnected\<lparr>clientDisconnected := False\<rparr>)
       = [Meta (Some ''s1''), Delta ''The fee is 100.'', Done]"
  by code_simp

subsection \<open>The fallback delta (C5)\<close>

text \<open>
  Claim C5 says that the fallback emits the full text of the last assistant message.
  The handler takes the last message of the list whatever its role: when the list ends
  with the user's own message, the turn emits the user's text as its \<^verbatim>\<open>delta\<close>, not
  the text of the last assistant message.
\<close>

theorem fallback_emits_last_message_of_any_role:
  "map (\<lambda>m. (m_role m, extractText (m_parts m))) (the (projr (messages1 turn_last_is_user)))
     = [(Some ''assistant'', ''The fee is 100.''), (Some ''user'', ''What is the fee?'')]
   \<and> chat_stream ask turn_last_is_user
       = [Meta (Some ''s1''), Delta ''What is the fee?'', Done]
   \<and> Delta ''The fee is 100.'' \<notin> set (chat_stream ask turn_last_is_user)"
  by code_simp

text \<open>
  What the fallback does emit: when nothing streamed, the signal has not fired and the
  fetched list is not empty, the one \<^verbatim>\<open>delta\<close> of the turn carries the text of the
  list's last message, if that text is not empty.
\<close>

lemma is_delta_tool_event: "\<not> is_delta (tool_event p)"
  by (simp add: tool_event_def)

lemma on_event_deltas:
  "(filter is_delta (written ls) \<noteq> [] \<longrightarrow> sawDelta ls) \<Longrightarrow>
   (filter is_delta (written (on_event sid evt ls)) \<noteq> [] \<longrightarrow> sawDelta (on_event sid evt ls))"
  by (cases evt)
     (auto simp: on_event_def writeNdjson_def Let_def is_delta_tool_event split: option.splits)

lemma consume_deltas:
  "(filter is_delta (written ls) \<noteq> [] \<longrightarrow> sawDelta ls) \<Longrightarrow>
   (filter is_delta (written (fst (consume sid evts ls))) \<noteq> []
      \<longrightarrow> sawDelta (fst (consume sid evts ls)))"
proof (induction evts arbitrary: ls)
  case Nil
  then show ?case by simp
next
  case (Cons evt evts)
  show ?case
  proof (cases "evt = SessionIdle sid")
    case True
    then show ?thesis using on_event_deltas[OF Cons.prems, of sid evt] by (simp add: Let_def)
  next
    case False
    then show ?thesis
      using Cons.IH[OF on_event_deltas[OF Cons.prems, of sid evt]] by (simp add: Let_def)
  qed
qed

lemma live_stream_deltas:
  "\<not> sawDelta (fst (live_stream sid env)) \<Longrightarrow>
   filter is_delta (written (fst (live_stream sid env))) = []"
proof (cases "subscribe env")
  case (Inl e)
  then show ?thesis by (simp add: live_stream_def)
next
  case (Inr pr)
  assume ns: "\<not> sawDelta (fst (live_stream sid env))"
  obtain evts ending where pr: "pr = (evts, ending)" by (cases pr)
  define ls0 where "ls0 = \<lparr>sawDelta = False, sessionError = None, seenToolCalls = {},
                 written = [Meta sid]\<rparr>"
  have eq: "fst (live_stream sid env) = fst (consume sid evts ls0)"
    using Inr pr by (simp add: live_stream_def ls0_def split: prod.splits)
  have "filter is_delta (written ls0) \<noteq> [] \<longrightarrow> sawDelta ls0" by (simp add: ls0_def)
  from consume_deltas[OF this, of sid evts] ns show ?thesis unfolding eq by blast
qed

lemma catch_deltas:
  "filter is_delta (written (catch_stream_error thrown aborted ls)) = filter is_delta (written ls)"
  "sawDelta (catch_stream_error thrown aborted ls) = sawDelta ls"
  by (simp_all add: catch_stream_error_def writeNdjson_def)

lemma prompt_deltas:
  "filter is_delta (written (surface_prompt_error pe sa ls)) = filter is_delta (written ls)"
  "sawDelta (surface_prompt_error pe sa ls) = sawDelta ls"
  by (simp_all add: surface_prompt_error_def writeNdjson_def)

lemma surface_deltas:
  "filter is_delta (written (surface_tool_part a ls)) = filter is_delta (written ls)"
  by (auto simp: surface_tool_part_def writeNdjson_def Let_def is_delta_tool_event
           split: option.splits)

lemma fold_surface_deltas:
  "filter is_delta (written (fold surface_tool_part parts ls)) = filter is_delta (written ls)"
  by (induction parts arbitrary: ls) (simp_all add: surface_deltas)

lemma completeness_deltas:
  "filter is_delta (written (completeness_pass f ls)) = filter is_delta (written ls)"
  by (cases f; simp add: completeness_pass_def fold_surface_deltas Let_def)

lemma terminal_deltas:
  "filter is_delta (written (terminal_event aborted ls)) = filter is_delta (written ls)"
  by (simp add: terminal_event_def writeNdjson_def)

lemma fallback_emits_text_of_last_message:
  assumes "message body = Some m" and "trim m \<noteq> []"
      and "resolve_session body env = Inr sid"
      and "\<not> sawDelta (fst (live_stream sid env))"
      and "\<not> signal_aborted env"
      and "messages1 env = Inr (Some ms)" and "ms \<noteq> []"
      and "extractText (m_parts (last ms)) \<noteq> []"
  shows "filter is_delta (chat_stream body env) = [Delta (extractText (m_parts (last ms)))]"
proof -
  have cs: "chat_stream body env = stream_turn sid env"
    using assms(1,2,3) by (simp add: chat_stream_def)
  obtain ls1 thrown promptErr where live: "live_stream sid env = (ls1, thrown, promptErr)"
    by (cases "live_stream sid env") auto
  define sa where "sa = signal_aborted env"
  define aborted where "aborted = (thrown \<noteq> None \<and> sa)"
  define ls3 where
    "ls3 = surface_prompt_error promptErr sa (catch_stream_error thrown aborted ls1)"
  define ls4 where
    "ls4 = (if \<not> sawDelta ls3 \<and> \<not> sa then fallback_delta (messages1 env) ls3 else ls3)"
  define ls5 where
    "ls5 = (if \<not> sa then completeness_pass (messages2 env) ls4 else ls4)"
  have out: "stream_turn sid env = written (writeNdjson Done (terminal_event aborted ls5))"
    by (simp only: stream_turn_def live prod.case Let_def ls5_def ls4_def ls3_def
          aborted_def sa_def)
  have nsa: "\<not> sa" using assms(5) by (simp add: sa_def)
  have d1: "filter is_delta (written ls1) = []" "\<not> sawDelta ls1"
    using live_stream_deltas[of sid env] assms(4) live by simp_all
  have d3: "filter is_delta (written ls3) = []" "\<not> sawDelta ls3"
    using d1 by (simp_all add: ls3_def catch_deltas prompt_deltas)
  have l4: "ls4 = fallback_delta (messages1 env) ls3"
    using d3 nsa by (simp add: ls4_def)
  have d4: "filter is_delta (written ls4) = [Delta (extractText (m_parts (last ms)))]"
    unfolding l4 using d3 assms(6,7,8)
    by (simp add: fallback_delta_def last_message_def Let_def writeNdjson_def)
  have d5: "filter is_delta (written ls5) = [Delta (extractText (m_parts (last ms)))]"
    using d4 by (simp add: ls5_def completeness_deltas)
  show ?thesis
    unfolding cs out using d5 by (simp add: writeNdjson_def terminal_deltas)
qed

subsection \<open>Tool events across the live stream and the completeness pass (C6)\<close>

lemma is_tool_tool_event: "is_tool (tool_event p)"
  by (simp add: tool_event_def)

lemma tool_with_id_tool_event: "tool_with_id c (tool_event p) = (tool_call_id p = c)"
  by (simp add: tool_event_def)

lemma tool_with_id_is_tool: "tool_with_id c e \<Longrightarrow> is_tool e"
  by (cases e) simp_all

lemma on_event_tools:
  "filter is_tool (written (on_event sid evt ls))
     = filter is_tool (written ls) @ map tool_event (live_tool_updates sid [evt])
   \<and> seenToolCalls (on_event sid evt ls)
     = seenToolCalls ls \<union> set (map tool_call_id (live_tool_updates sid [evt]))"
  by (cases evt)
     (auto simp: on_event_def writeNdjson_def Let_def is_tool_tool_event split: option.splits)

lemma live_tool_updates_Cons:
  "live_tool_updates sid (evt # evts)
     = live_tool_updates sid [evt]
       @ (if evt = SessionIdle sid then [] else live_tool_updates sid evts)"
  by (cases evt) (auto split: option.splits)

lemma consume_tools:
  "filter is_tool (written (fst (consume sid evts ls)))
     = filter is_tool (written ls) @ map tool_event (live_tool_updates sid evts)
   \<and> seenToolCalls (fst (consume sid evts ls))
     = seenToolCalls ls \<union> set (map tool_call_id (live_tool_updates sid evts))"
proof (induction evts arbitrary: ls)
  case Nil
  then show ?case by simp
next
  case (Cons evt evts)
  show ?case
  proof (cases "evt = SessionIdle sid")
    case True
    then show ?thesis
      using on_event_tools[of sid evt ls] by (simp add: Let_def)
  next
    case False
    have step: "consume sid (evt # evts) ls = consume sid evts (on_event sid evt ls)"
      using False by (simp add: Let_def)
    show ?thesis
      unfolding step
      using Cons.IH[of "on_event sid evt ls"] on_event_tools[of sid evt ls] False
      by (simp only: live_tool_updates_Cons[of sid evt evts] if_False map_append set_append
            append_assoc Un_assoc)
  qed
qed

lemma live_stream_tools:
  assumes "subscribe env = Inr (evts, ending)"
  shows "filter is_tool (written (fst (live_stream sid env)))
           = map tool_event (live_tool_updates sid evts)"
    and "seenToolCalls (fst (live_stream sid env))
           = set (map tool_call_id (live_tool_updates sid evts))"
proof -
  define ls0 where "ls0 = \<lparr>sawDelta = False, sessionError = None, seenToolCalls = {},
                 written = [Meta sid]\<rparr>"
  have eq: "fst (live_stream sid env) = fst (consume sid evts ls0)"
    using assms by (simp add: live_stream_def ls0_def split: prod.splits)
  show "filter is_tool (written (fst (live_stream sid env)))
           = map tool_event (live_tool_updates sid evts)"
    unfolding eq using consume_tools[of sid evts ls0] by (simp add: ls0_def)
  show "seenToolCalls (fst (live_stream sid env))
           = set (map tool_call_id (live_tool_updates sid evts))"
    unfolding eq using consume_tools[of sid evts ls0] by (simp add: ls0_def)
qed

lemma catch_tools:
  "filter is_tool (written (catch_stream_error thrown aborted ls)) = filter is_tool (written ls)"
  "seenToolCalls (catch_stream_error thrown aborted ls) = seenToolCalls ls"
  by (simp_all add: catch_stream_error_def writeNdjson_def)

lemma prompt_tools:
  "filter is_tool (written (surface_prompt_error pe sa ls)) = filter is_tool (written ls)"
  "seenToolCalls (surface_prompt_error pe sa ls) = seenToolCalls ls"
  by (simp_all add: surface_prompt_error_def writeNdjson_def)

lemma fallback_tools:
  "filter is_tool (written (fallback_delta f ls)) = filter is_tool (written ls)"
  "seenToolCalls (fallback_delta f ls) = seenToolCalls ls"
  by (auto simp: fallback_delta_def writeNdjson_def Let_def split: sum.splits)

lemma terminal_tools:
  "filter is_tool (written (terminal_event aborted ls)) = filter is_tool (written ls)"
  by (simp add: terminal_event_def writeNdjson_def)

text \<open>One part in the completeness pass: skipped, or emitted under an id not seen before.\<close>

lemma surface_tool_part_cases:
  "surface_tool_part a ls = ls
   \<or> (\<exists>p. a = Some p \<and> tool_call_id p \<notin> seenToolCalls ls
          \<and> written (surface_tool_part a ls) = written ls @ [tool_event p]
          \<and> seenToolCalls (surface_tool_part a ls) = insert (tool_call_id p) (seenToolCalls ls))"
proof (cases a)
  case None
  then show ?thesis by (simp add: surface_tool_part_def)
next
  case (Some p)
  show ?thesis
  proof (cases "part_type p = Some ''tool'' \<and> tool_call_id p \<notin> seenToolCalls ls")
    case True
    then show ?thesis using Some
      by (simp add: surface_tool_part_def writeNdjson_def Let_def)
  next
    case False
    then have "surface_tool_part a ls = ls" using Some
      by (auto simp: surface_tool_part_def Let_def)
    then show ?thesis by simp
  qed
qed

lemma surface_tools:
  "\<exists>comp. filter is_tool (written (fold surface_tool_part parts ls))
             = filter is_tool (written ls) @ map tool_event comp
         \<and> distinct (map tool_call_id comp)
         \<and> set (map tool_call_id comp) \<inter> seenToolCalls ls = {}
         \<and> seenToolCalls (fold surface_tool_part parts ls)
             = seenToolCalls ls \<union> set (map tool_call_id comp)"
proof (induction parts arbitrary: ls)
  case Nil
  show ?case by (rule exI[of _ "[]"]) simp
next
  case (Cons a parts)
  let ?ls1 = "surface_tool_part a ls"
  obtain comp where c:
    "filter is_tool (written (fold surface_tool_part parts ?ls1))
       = filter is_tool (written ?ls1) @ map tool_event comp"
    "distinct (map tool_call_id comp)"
    "set (map tool_call_id comp) \<inter> seenToolCalls ?ls1 = {}"
    "seenToolCalls (fold surface_tool_part parts ?ls1)
       = seenToolCalls ?ls1 \<union> set (map tool_call_id comp)"
    using Cons.IH[of ?ls1] by blast
  consider (skip) "?ls1 = ls"
    | (emit) p where "a = Some p" "tool_call_id p \<notin> seenToolCalls ls"
        "written ?ls1 = written ls @ [tool_event p]"
        "seenToolCalls ?ls1 = insert (tool_call_id p) (seenToolCalls ls)"
    using surface_tool_part_cases[of a ls] by blast
  then show ?case
  proof cases
    case skip
    show ?thesis
      by (rule exI[of _ comp]) (use c skip in simp)
  next
    case emit
    show ?thesis
      by (rule exI[of _ "p # comp"]) (use c emit in \<open>auto simp: is_tool_tool_event\<close>)
  qed
qed

lemma completeness_tools:
  "\<exists>comp. filter is_tool (written (completeness_pass f ls))
             = filter is_tool (written ls) @ map tool_event comp
         \<and> distinct (map tool_call_id comp)
         \<and> set (map tool_call_id comp) \<inter> seenToolCalls ls = {}"
proof (cases f)
  case (Inl e)
  show ?thesis by (rule exI[of _ "[]"]) (simp add: completeness_pass_def Inl)
next
  case (Inr messages)
  define parts where "parts = (case last_message messages of
                         None \<Rightarrow> []
                       | Some m \<Rightarrow> (case m_parts m of None \<Rightarrow> [] | Some ps \<Rightarrow> ps))"
  have "completeness_pass f ls = fold surface_tool_part parts ls"
    by (simp add: completeness_pass_def Inr parts_def Let_def)
  then show ?thesis using surface_tools[of parts ls] by auto
qed

lemma distinct_ids_at_most_one:
  "distinct (map f xs) \<Longrightarrow> length (filter (\<lambda>x. f x = c) xs) \<le> 1"
proof (induction xs)
  case Nil
  then show ?case by simp
next
  case (Cons x xs)
  show ?case
  proof (cases "f x = c")
    case True
    then have "c \<notin> f ` set xs" using Cons.prems by auto
    then have "filter (\<lambda>y. f y = c) xs = []" by (auto simp: filter_empty_conv)
    then show ?thesis using True by simp
  next
    case False
    then show ?thesis using Cons by simp
  qed
qed

lemma count_tool_with_id:
  "count_events (tool_with_id c) out = length (filter (tool_with_id c) (filter is_tool out))"
  by (auto simp: count_events_def intro!: arg_cong[where f=length] filter_cong
           dest: tool_with_id_is_tool)

lemma filter_tool_with_id_map:
  "filter (tool_with_id c) (map tool_event ps)
     = map tool_event (filter (\<lambda>p. tool_call_id p = c) ps)"
  by (induction ps) (simp_all add: tool_with_id_tool_event)

text \<open>
  Claim C6. In a turn that reaches the stream, the \<^verbatim>\<open>tool\<close> events written are: one
  for every tool part of this session that the live loop receives, in order and with the
  status of that update (so successive updates under one call id are each re-emitted),
  followed by events of the completeness pass whose call ids are pairwise different and
  different from every call id emitted live. Hence, for each call id, the number of
  \<^verbatim>\<open>tool\<close> events is the number of live updates under that id when there is one, and
  at most one otherwise: two updates pending and completed give exactly two events.
\<close>

theorem tool_events_not_duplicated:
  assumes "message body = Some m" and "trim m \<noteq> []"
      and "resolve_session body env = Inr sid"
      and "subscribe env = Inr (evts, ending)"
  shows "(\<exists>comp. filter is_tool (chat_stream body env)
                   = map tool_event (live_tool_updates sid evts) @ map tool_event comp
               \<and> distinct (map tool_call_id comp)
               \<and> set (map tool_call_id comp)
                   \<inter> set (map tool_call_id (live_tool_updates sid evts)) = {})
       \<and> (let n = length (filter (\<lambda>p. tool_call_id p = c) (live_tool_updates sid evts));
               k = count_events (tool_with_id c) (chat_stream body env)
           in if 0 < n then k = n else k \<le> 1)"
proof -
  have cs: "chat_stream body env = stream_turn sid env"
    using assms by (simp add: chat_stream_def)
  obtain ls1 thrown promptErr where live: "live_stream sid env = (ls1, thrown, promptErr)"
    by (cases "live_stream sid env") auto
  define sa where "sa = signal_aborted env"
  define aborted where "aborted = (thrown \<noteq> None \<and> sa)"
  define ls3 where
    "ls3 = surface_prompt_error promptErr sa (catch_stream_error thrown aborted ls1)"
  define ls4 where
    "ls4 = (if \<not> sawDelta ls3 \<and> \<not> sa then fallback_delta (messages1 env) ls3 else ls3)"
  define ls5 where
    "ls5 = (if \<not> sa then completeness_pass (messages2 env) ls4 else ls4)"
  have out: "stream_turn sid env = written (writeNdjson Done (terminal_event aborted ls5))"
    by (simp only: stream_turn_def live prod.case Let_def ls5_def ls4_def ls3_def
          aborted_def sa_def)
  define run2 where "run2 = (\<not> sa)"
  have ls5_if: "ls5 = (if run2 then completeness_pass (messages2 env) ls4 else ls4)"
    by (simp only: ls5_def run2_def)
  let ?live = "live_tool_updates sid evts"
  have t1: "filter is_tool (written ls1) = map tool_event ?live"
           "seenToolCalls ls1 = set (map tool_call_id ?live)"
    using live_stream_tools[OF assms(4), of sid] live by simp_all
  have t4: "filter is_tool (written ls4) = map tool_event ?live"
           "seenToolCalls ls4 = set (map tool_call_id ?live)"
    using t1 by (simp_all add: ls4_def ls3_def catch_tools prompt_tools fallback_tools)
  obtain comp where c:
      "filter is_tool (written ls5) = map tool_event ?live @ map tool_event comp"
      "distinct (map tool_call_id comp)"
      "set (map tool_call_id comp) \<inter> set (map tool_call_id ?live) = {}"
  proof (cases run2)
    case True
    then have "ls5 = completeness_pass (messages2 env) ls4" using ls5_if by simp
    then show ?thesis
      using completeness_tools[of "messages2 env" ls4] t4 that by auto
  next
    case False
    then have "ls5 = ls4" using ls5_if by simp
    then show ?thesis using t4 that[of "[]"] by simp
  qed
  have tools: "filter is_tool (chat_stream body env)
                 = map tool_event ?live @ map tool_event comp"
    unfolding cs out using c(1) by (simp add: writeNdjson_def terminal_tools)
  define n where "n = length (filter (\<lambda>p. tool_call_id p = c) ?live)"
  define k where "k = count_events (tool_with_id c) (chat_stream body env)"
  have k_eq: "k = n + length (filter (\<lambda>p. tool_call_id p = c) comp)"
    unfolding k_def n_def count_tool_with_id tools
    by (simp add: filter_tool_with_id_map)
  have le1: "length (filter (\<lambda>p. tool_call_id p = c) comp) \<le> 1"
    using distinct_ids_at_most_one[OF c(2)] .
  have zero: "0 < n \<Longrightarrow> filter (\<lambda>p. tool_call_id p = c) comp = []"
  proof -
    assume "0 < n"
    then have "filter (\<lambda>p. tool_call_id p = c) ?live \<noteq> []" by (simp add: n_def)
    then have "c \<in> set (map tool_call_id ?live)"
      by (auto simp: filter_empty_conv)
    then have "c \<notin> set (map tool_call_id comp)" using c(3) by blast
    then show ?thesis by (auto simp: filter_empty_conv)
  qed
  have count: "if 0 < n then k = n else k \<le> 1"
    using k_eq le1 zero by auto
  have first: "\<exists>comp. filter is_tool (chat_stream body env)
                   = map tool_event ?live @ map tool_event comp
               \<and> distinct (map tool_call_id comp)
               \<and> set (map tool_call_id comp) \<inter> set (map tool_call_id ?live) = {}"
    using tools c(2,3) by blast
  show ?thesis
    using first count unfolding n_def k_def Let_def by blast
qed

text \<open>
  C6 at the scenario of two updates (pending, then completed) under one synthesized call
  id, with the same tool part in the final message: exactly two \<^verbatim>\<open>tool\<close> events.
\<close>

theorem tool_events_not_duplicated_witness:
  "message ask = Some ''What is the fee?''
   \<and> trim ''What is the fee?'' \<noteq> []
   \<and> resolve_session ask turn_two_updates = Inr (Some ''s1'')
   \<and> subscribe turn_two_updates
       = Inr ([MessagePartUpdated (Some (search_part ''pending'')) None,
               MessagePartUpdated (Some (search_part ''completed'')) None,
               SessionIdle (Some ''s1'')], StreamEnds)
   \<and> count_events (tool_with_id ''search-m1'') (chat_stream ask turn_two_updates) = 2
   \<and> filter is_tool (chat_stream ask turn_two_updates)
       = [Tool ''search-m1'' (Some ''search'') ''pending'' None,
          Tool ''search-m1'' (Some ''search'') ''completed'' None]"
proof -
  let ?evts = "[MessagePartUpdated (Some (search_part ''pending'')) None,
                MessagePartUpdated (Some (search_part ''completed'')) None,
                SessionIdle (Some ''s1'')]"
  have h1: "message ask = Some ''What is the fee?''"
    by (simp add: ask_def)
  have h2: "trim ''What is the fee?'' \<noteq> []"
    by (simp add: trim_def is_space_def)
  have h3: "resolve_session ask turn_two_updates = Inr (Some ''s1'')"
    by (simp add: resolve_session_def ask_def turn_two_updates_def truthy_def)
  have h4: "subscribe turn_two_updates = Inr (?evts, StreamEnds)"
    by (simp add: turn_two_updates_def)
  have ids: "tool_call_id (search_part ''pending'') = ''search-m1''"
            "tool_call_id (search_part ''completed'') = ''search-m1''"
    by (simp_all add: tool_call_id_def search_part_def or_else_def truthy_def or_str_def)
  have lv: "live_tool_updates (Some ''s1'') ?evts
              = [search_part ''pending'', search_part ''completed'']"
    by (simp add: search_part_def)
  have n: "length (filter (\<lambda>p. tool_call_id p = ''search-m1'')
                    (live_tool_updates (Some ''s1'') ?evts)) = 2"
    unfolding lv using ids by simp
  have "let n = length (filter (\<lambda>p. tool_call_id p = ''search-m1'')
                          (live_tool_updates (Some ''s1'') ?evts));
            k = count_events (tool_with_id ''search-m1'') (chat_stream ask turn_two_updates)
        in if 0 < n then k = n else k \<le> 1"
    using tool_events_not_duplicated[OF h1 h2 h3 h4, of "''search-m1''"] by blast
  then have two: "count_events (tool_with_id ''search-m1'') (chat_stream ask turn_two_updates) = 2"
    unfolding n Let_def by simp
  have ev: "filter is_tool (chat_stream ask turn_two_updates)
       = [Tool ''search-m1'' (Some ''search'') ''pending'' None,
          Tool ''search-m1'' (Some ''search'') ''completed'' None]"
    by code_simp
  show ?thesis using h1 h2 h3 h4 two ev by simp
qed

section \<open>A token that fails verification (C9)\<close>

lemma map_of_filter_other:
  "k \<noteq> a \<Longrightarrow> map_of (filter (\<lambda>(k', v). k' \<noteq> a) ps) k = map_of ps k"
  by (induction ps) auto

lemma map_of_filter_same: "map_of (filter (\<lambda>(k', v). k' \<noteq> a) ps) a = None"
  by (induction ps) auto

lemma header_without_token:
  "header (without_token req) ''authorization'' = None"
  "header (without_token req) ''x-role'' = header req ''x-role''"
  "header (without_token req) ''x-user-role'' = header req ''x-user-role''"
  by (simp_all add: header_def without_token_def map_of_filter_same map_of_filter_other)

lemma no_token_no_user: "deriveAuthUser jwt_verify (without_token req) = None"
  by (simp add: deriveAuthUser_def header_without_token or_str_def startsWith_def
        toLowerCase_def)

lemma deriveRole_no_user: "authUser req = None \<Longrightarrow> deriveRole req = header_role req"
  by (simp add: deriveRole_def header_role_def Let_def)

lemma header_middleware: "header (auth_middleware v req) n = header req n"
  by (simp add: header_def auth_middleware_def)

lemma header_role_middleware: "header_role (auth_middleware v req) = header_role req"
  by (simp add: header_role_def header_middleware)

text \<open>
  Claim C9. A bearer token that fails verification (the library rejects it for its
  signature, issuer or expiry, or its subject is not a finite number, or its email is
  missing) leaves the request without a user, exactly as the same request sent with no
  token: the middleware passes the request on, and its role is the one the
  \<^verbatim>\<open>x-role\<close> header (or else \<^verbatim>\<open>x-user-role\<close>) names, ADMIN or FACULTY in any
  letter case, and STUDENT otherwise.
\<close>

theorem failed_token_treated_as_absent:
  assumes "header req ''authorization'' = Some auth"
      and "startsWith (toLowerCase auth) ''bearer ''"
      and "trim (drop 7 auth) \<noteq> []"
      and "verification_fails jwt_verify (trim (drop 7 auth))"
  shows "deriveAuthUser jwt_verify req = None
       \<and> auth_middleware jwt_verify req = req\<lparr>authUser := None\<rparr>
       \<and> authUser (auth_middleware jwt_verify req)
           = authUser (auth_middleware jwt_verify (without_token req))
       \<and> deriveRole (auth_middleware jwt_verify req) = header_role req
       \<and> deriveRole (auth_middleware jwt_verify req)
           = deriveRole (auth_middleware jwt_verify (without_token req))"
proof -
  have a: "or_str (header req ''authorization'') [] = auth"
    using assms(1,2) by (auto simp: or_str_def startsWith_def)
  have none: "deriveAuthUser jwt_verify req = None"
    using assms(2,3,4) a
    by (auto simp: deriveAuthUser_def verification_fails_def Let_def toLowerCase_def
             split: option.splits)
  have m1: "authUser (auth_middleware jwt_verify req) = None"
    using none by (simp add: auth_middleware_def)
  have m2: "authUser (auth_middleware jwt_verify (without_token req)) = None"
    using no_token_no_user by (simp add: auth_middleware_def)
  have r1: "deriveRole (auth_middleware jwt_verify req) = header_role req"
    using deriveRole_no_user[OF m1] header_role_middleware by simp
  have r2: "deriveRole (auth_middleware jwt_verify (without_token req)) = header_role req"
    using deriveRole_no_user[OF m2] header_role_middleware[of jwt_verify "without_token req"]
    by (simp add: header_role_def header_without_token)
  show ?thesis using none m1 m2 r1 r2 by (simp add: auth_middleware_def)
qed

text \<open>C9 at a forged token sent with \<^verbatim>\<open>x-role: admin\<close>: the request is an ADMIN request.\<close>

theorem failed_token_treated_as_absent_witness:
  "header forged_request ''authorization'' = Some ''Bearer forged.token.value''
   \<and> startsWith (toLowerCase ''Bearer forged.token.value'') ''bearer ''
   \<and> trim (drop 7 ''Bearer forged.token.value'') \<noteq> []
   \<and> verification_fails reject_all (trim (drop 7 ''Bearer forged.token.value''))
   \<and> deriveRole (auth_middleware reject_all forged_request) = ''ADMIN''"
proof -
  have h1: "header forged_request ''authorization'' = Some ''Bearer forged.token.value''"
    by (simp add: header_def forged_request_def)
  have h2: "startsWith (toLowerCase ''Bearer forged.token.value'') ''bearer ''"
    by (simp add: startsWith_def toLowerCase_def lower_char_def)
  have h3: "trim (drop 7 ''Bearer forged.token.value'') \<noteq> []"
    by (simp add: trim_def is_space_def)
  have h4: "verification_fails reject_all (trim (drop 7 ''Bearer forged.token.value''))"
    by (simp add: verification_fails_def reject_all_def)
  have r: "header_role forged_request = ''ADMIN''"
    by (simp add: header_role_def header_def forged_request_def or_else_def truthy_def
          or_str_def toUpperCase_def upper_char_def)
  have "deriveRole (auth_middleware reject_all forged_request) = header_role forged_request"
    using failed_token_treated_as_absent[OF h1 h2 h3 h4] by blast
  then show ?thesis
    using h1 h2 h3 h4 r by simp
qed

section \<open>Redaction of the provider catalog (C10)\<close>

lemma toLowerCase_append: "toLowerCase (a @ b) = toLowerCase a @ toLowerCase b"
  by (simp add: toLowerCase_def)

lemma endsWith_iff: "endsWith s suf \<longleftrightarrow> (\<exists>pre. s = pre @ suf)"
proof
  assume "endsWith s suf"
  then have "s = take (length s - length suf) s @ suf"
    by (metis append_take_drop_id endsWith_def)
  then show "\<exists>pre. s = pre @ suf" ..
next
  assume "\<exists>pre. s = pre @ suf"
  then show "endsWith s suf" by (auto simp: endsWith_def)
qed

lemma endsWith_token_secret: "endsWith k ''_token'' \<Longrightarrow> secret_key k"
proof -
  assume "endsWith k ''_token''"
  then obtain pre where "k = pre @ ''_token''" using endsWith_iff by blast
  moreover have "toLowerCase ''_token'' = ''_token''"
    by (simp add: toLowerCase_def lower_char_def)
  ultimately have "toLowerCase k = toLowerCase pre @ ''_token''"
    using toLowerCase_append by simp
  then have "endsWith (toLowerCase k) ''_token''" using endsWith_iff by blast
  then show ?thesis by (simp add: secret_key_def Let_def)
qed

lemma redact_no_secret: "\<not> has_secret (redactSecrets v)"
  by (induction v rule: redactSecrets.induct) auto

lemma redact_without_secrets: "proto_free v \<Longrightarrow> redactSecrets v = without_secrets v"
proof (induction v rule: redactSecrets.induct)
  case (1 xs)
  then show ?case by simp
next
  case (2 ps)
  have f: "filter (\<lambda>(k, v). \<not> secret_key k \<and> k \<noteq> ''__proto__'') ps
             = filter (\<lambda>(k, v). \<not> secret_key k) ps"
    using 2(2) by (intro filter_cong) auto
  have "map (\<lambda>(k, v). (k, redactSecrets v)) (filter (\<lambda>(k, v). \<not> secret_key k) ps)
          = map (\<lambda>(k, v). (k, without_secrets v)) (filter (\<lambda>(k, v). \<not> secret_key k) ps)"
    using 2 by (intro map_cong) auto
  then show ?case using f by simp
qed simp_all

lemma without_secrets_id: "\<not> has_secret v \<Longrightarrow> without_secrets v = v"
proof (induction v rule: without_secrets.induct)
  case (1 xs)
  then show ?case by (simp add: map_idI)
next
  case (2 ps)
  have f: "filter (\<lambda>(k, v). \<not> secret_key k) ps = ps"
    using 2(2) by (auto simp: filter_id_conv)
  have "map (\<lambda>(k, v). (k, without_secrets v)) ps = ps"
    using 2 f by (intro map_idI) auto
  then show ?case using f by simp
qed simp_all

text \<open>
  Claim C10, as stated, removes the properties named \<^verbatim>\<open>key\<close>, \<^verbatim>\<open>apiKey\<close>,
  \<^verbatim>\<open>api_key\<close>, \<^verbatim>\<open>token\<close> or ending in \<^verbatim>\<open>_token\<close> and keeps all others. The code
  compares the lower-cased name, so a property named \<^verbatim>\<open>API_KEY\<close>, which is none of
  those names, is removed as well.
\<close>

theorem redactSecrets_case_counterexample:
  "''API_KEY'' \<notin> {''key'', ''apiKey'', ''api_key'', ''token''}
   \<and> \<not> endsWith ''API_KEY'' ''_token''
   \<and> redactSecrets (JObj [(''API_KEY'', JStr ''sk-1''), (''name'', JStr ''x'')])
       = JObj [(''name'', JStr ''x'')]"
  by code_simp

text \<open>
  Claim C10, amended. A property name is secret when, in lower case, it is \<^verbatim>\<open>key\<close>,
  \<^verbatim>\<open>apikey\<close>, \<^verbatim>\<open>api_key\<close> or \<^verbatim>\<open>token\<close> or ends in \<^verbatim>\<open>_token\<close>; the names of the
  claim are secret. The redacted payload has a secret-named property at no depth and in
  no array. For a payload in which no property is named \<^verbatim>\<open>__proto__\<close>, the result is
  the payload without its secret-named properties: arrays are redacted element by
  element, each object keeps in order every other property with its value redacted, any
  other value is returned as it is, and a payload with no secret-named property is
  returned unchanged.
\<close>

theorem redactSecrets_removes_secret_properties:
  "\<not> has_secret (redactSecrets v)
   \<and> (proto_free v \<longrightarrow> redactSecrets v = without_secrets v)
   \<and> (proto_free v \<and> \<not> has_secret v \<longrightarrow> redactSecrets v = v)
   \<and> secret_key ''key'' \<and> secret_key ''apiKey'' \<and> secret_key ''api_key'' \<and> secret_key ''token''
   \<and> (endsWith k ''_token'' \<longrightarrow> secret_key k)
   \<and> secret_key k
       = (toLowerCase k \<in> {''key'', ''apikey'', ''api_key'', ''token''}
          \<or> endsWith (toLowerCase k) ''_token'')"
proof -
  have names: "secret_key ''key''" "secret_key ''apiKey''" "secret_key ''api_key''"
              "secret_key ''token''"
    by (simp_all add: secret_key_def toLowerCase_def lower_char_def Let_def)
  have char: "secret_key k
       = (toLowerCase k \<in> {''key'', ''apikey'', ''api_key'', ''token''}
          \<or> endsWith (toLowerCase k) ''_token'')"
    by (auto simp: secret_key_def Let_def)
  have same: "proto_free v \<and> \<not> has_secret v \<longrightarrow> redactSecrets v = v"
    using redact_without_secrets[of v] without_secrets_id[of v] by simp
  show ?thesis
    using redact_no_secret[of v] redact_without_secrets[of v] same names
          endsWith_token_secret[of k] char
    by simp
qed

text \<open>C10 amended, at a catalog with an \<^verbatim>\<open>apiKey\<close> and a nested \<^verbatim>\<open>refresh_token\<close>.\<close>

theorem redactSecrets_removes_secret_properties_witness:
  "proto_free catalog
   \<and> redactSecrets catalog = without_secrets catalog
   \<and> without_secrets catalog = clean_catalog
   \<and> proto_free clean_catalog
   \<and> \<not> has_secret clean_catalog
   \<and> redactSecrets clean_catalog = clean_catalog
   \<and> endsWith ''refresh_token'' ''_token''
   \<and> secret_key ''refresh_token''
   \<and> \<not> has_secret (redactSecrets catalog)"
proof -
  have pc: "proto_free catalog"
    by code_simp
  have w: "without_secrets catalog = clean_catalog"
    by code_simp
  have pf: "proto_free clean_catalog"
    by code_simp
  have ns: "\<not> has_secret clean_catalog"
    by code_simp
  have e: "endsWith ''refresh_token'' ''_token''"
    by (simp add: endsWith_def)
  have r: "redactSecrets catalog = without_secrets catalog"
    using redactSecrets_removes_secret_properties[of catalog] pc by blast
  have i: "redactSecrets clean_catalog = clean_catalog"
    using redactSecrets_removes_secret_properties[of clean_catalog] pf ns by blast
  have s: "secret_key ''refresh_token''"
    using redactSecrets_removes_secret_properties[of _ "''refresh_token''"] e by blast
  have n: "\<not> has_secret (redactSecrets catalog)"
    using redactSecrets_removes_secret_properties[of catalog] by blast
  show ?thesis using pc r w pf ns i e s n by simp
qed

section \<open>Port selection (C3)\<close>

text \<open>
  With the constants as lines 20 to 23 derive them from the environment, a fixed port
  comes only from a non-empty value of the variable, so it is always explicitly set.
\<close>

lemma configured_port_is_explicitly_set:
  "OPENCODE_PORT number raw \<noteq> None \<Longrightarrow> truthy raw"
  by (simp add: OPENCODE_PORT_def split: if_splits)



section \<open>Shared acquisition (C7)\<close>

text \<open>
  While a promise is cached, every caller is handed that promise and nothing new is
  started: concurrent calls share the one acquisition in flight.
\<close>

lemma acquires_share_cached_promise:
  "opencodePromise s = Some i \<Longrightarrow>
     run_supervisor PORT PORT_RAW (replicate n Acquire) (s, handed)
       = (s, handed @ replicate n i)"
proof (induction n arbitrary: handed)
  case 0
  then show ?case by simp
next
  case (Suc n)
  have "getOpencode s = (i, s)"
    using Suc.prems by (simp add: getOpencode_def)
  then show ?case
    using Suc.IH[OF Suc.prems, of "handed @ [i]"] by (simp add: replicate_app_Cons_same)
qed

lemma concurrent_acquires_start_once:
  "run_supervisor PORT PORT_RAW (replicate (Suc n) Acquire) (supervisor0, [])
     = (supervisor0\<lparr>opencodePromise := Some 0, promises := [Pending]\<rparr>,
        replicate (Suc n) 0)"
proof -
  let ?s1 = "supervisor0\<lparr>opencodePromise := Some 0, promises := [Pending]\<rparr>"
  have g: "getOpencode supervisor0 = (0, ?s1)"
    by (simp add: getOpencode_def supervisor0_def Let_def)
  have c: "opencodePromise ?s1 = Some 0" by simp
  show ?thesis
    using g acquires_share_cached_promise[OF c, of PORT PORT_RAW n "[0]"]
    by simp
qed

text \<open>
  Claim C7 says that any failed acquisition clears the cached promise, so that the next
  call retries the spawn. An attempt in which \<open>startOpencodeServer\<close> throws does (the
  second run below: the child exits, and the third caller is handed a new promise and
  a second child is spawned). An attempt in which it returns \<^verbatim>\<open>null\<close> does not (the
  first run: port 8010 is set and busy, the two concurrent callers share promise 0, it
  resolves to \<^verbatim>\<open>null\<close> and stays cached; the callers that come after the port is
  free again are handed the same promise, and nothing is ever spawned).
\<close>

theorem null_start_keeps_cached_promise:
  "run_supervisor (OPENCODE_PORT number8010 (Some ''8010'')) (Some ''8010'')
       [Acquire, Acquire, Settle port8010_busy, Acquire, Settle all_ports_free, Acquire]
       (supervisor0, [])
     = (\<lparr>opencodePromise = Some 0, promises = [Fulfilled None], opencodeBaseUrl = None,
          spawnedPorts = []\<rparr>,
        [0, 0, 0, 0])
   \<and> run_supervisor (OPENCODE_PORT number8010 (Some ''8010'')) (Some ''8010'')
       [Acquire, Acquire, Settle child_exits, Acquire, Settle all_ports_free, Acquire]
       (supervisor0, [])
     = (\<lparr>opencodePromise = Some 1,
          promises = [Fulfilled None, Fulfilled (Some ''http://127.0.0.1'')],
          opencodeBaseUrl = Some ''http://127.0.0.1'',
          spawnedPorts = [Num 8010, Num 8010]\<rparr>,
        [0, 0, 1, 1])"
  by code_simp

end
